theory Spec2Isabelle
  imports Main "HOL-Library.Word"
begin

unbundle bit_operations_syntax

section \<open>Chain names: lifecycle.GenerateChainName and validation.ValidateChainName\<close>

text \<open>
  Go strings are byte sequences; they are modelled as \<open>string\<close> (a list of 8-bit
  characters).  \<open>GenerateChainName\<close> ranges over the runes of the container ID, keeps
  those that are ASCII hex digits (both cases) and stops as soon as sixteen of them have
  been collected.  A rune that is a hex digit is a single ASCII byte, and every ASCII byte of
  a Go string decodes to itself, so the rune loop is a loop over the bytes.
\<close>

definition isHexRune :: "char \<Rightarrow> bool" where
  "isHexRune ch \<longleftrightarrow>
     (of_char ch \<ge> (48::nat) \<and> of_char ch \<le> (57::nat)) \<or>
     (of_char ch \<ge> (97::nat) \<and> of_char ch \<le> (102::nat)) \<or>
     (of_char ch \<ge> (65::nat) \<and> of_char ch \<le> (70::nat))"

fun chainHexLoop :: "string \<Rightarrow> string \<Rightarrow> string" where
  "chainHexLoop hexPart [] = hexPart"
| "chainHexLoop hexPart (ch # rest) =
     (if isHexRune ch
      then (let hexPart' = hexPart @ [ch]
            in if length hexPart' = 16 then hexPart' else chainHexLoop hexPart' rest)
      else chainHexLoop hexPart rest)"

definition GenerateChainName :: "string \<Rightarrow> string" where
  "GenerateChainName containerID = ''ISO-'' @ chainHexLoop [] containerID"

text \<open>The character class \<open>[a-f0-9]\<close> of \<open>chainNameRegex\<close>.\<close>

definition isLowerHex :: "char \<Rightarrow> bool" where
  "isLowerHex ch \<longleftrightarrow>
     (of_char ch \<ge> (97::nat) \<and> of_char ch \<le> (102::nat)) \<or>
     (of_char ch \<ge> (48::nat) \<and> of_char ch \<le> (57::nat))"

text \<open>
  \<open>chainNameRegex = ^ISO-[a-f0-9]{16}$\<close>: without the multi-line flag the anchors are
  the two ends of the text, so the expression matches exactly the strings made of the four
  characters \<open>ISO-\<close> followed by sixteen characters of the class.
\<close>

definition chainNameRegex_MatchString :: "string \<Rightarrow> bool" where
  "chainNameRegex_MatchString s \<longleftrightarrow>
     take 4 s = ''ISO-'' \<and> length (drop 4 s) = 16 \<and> list_all isLowerHex (drop 4 s)"

datatype ValidationError = ValidationError (Field: string) (Message: string)

definition ValidateChainName :: "string \<Rightarrow> ValidationError option" where
  "ValidateChainName chainName =
     (if length chainName > 28
      then Some (ValidationError ''chain_name'' ''chain name too long (max 28 chars)'')
      else if \<not> chainNameRegex_MatchString chainName
      then Some (ValidationError ''chain_name'' ''chain name must match pattern ISO-[a-f0-9]{16}'')
      else None)"

section \<open>The Go standard library's \<open>net\<close> package, as far as the code uses it\<close>

text \<open>
  The repository decides overlaps, address families and private ranges with
  \<open>net.ParseIP\<close>, \<open>net.ParseCIDR\<close>, \<open>IP.To4\<close>, \<open>IP.IsLoopback\<close> and
  \<open>IPNet.Contains\<close>.  They are library functions; the definitions below follow the
  library's algorithms on byte slices.  An \<open>IP\<close> is a byte slice of length 4 or 16, and
  the \<open>nil\<close> slice is the empty list.
\<close>

type_synonym byte = "8 word"
type_synonym IP = "byte list"
type_synonym IPMask = "byte list"

record IPNet =
  IP :: IP
  Mask :: IPMask

definition v4InV6Prefix :: "byte list" where
  "v4InV6Prefix = [0, 0, 0, 0, 0, 0, 0, 0, 0, 0, 0xff, 0xff]"

definition To4 :: "IP \<Rightarrow> IP" where
  "To4 ip =
     (if length ip = 4 then ip
      else if length ip = 16 \<and> list_all (\<lambda>b. b = 0) (take 10 ip)
              \<and> ip ! 10 = 0xff \<and> ip ! 11 = 0xff
      then drop 12 ip
      else [])"

text \<open>\<open>CIDRMask ones bits\<close>: \<open>bits / 8\<close> bytes whose first \<open>ones\<close> bits are set.\<close>

fun CIDRMask_loop :: "nat \<Rightarrow> nat \<Rightarrow> IPMask" where
  "CIDRMask_loop n 0 = []"
| "CIDRMask_loop n (Suc l) =
     (if n \<ge> 8 then 0xff # CIDRMask_loop (n - 8) l
      else NOT (drop_bit n (0xff :: byte)) # CIDRMask_loop 0 l)"

definition CIDRMask :: "nat \<Rightarrow> nat \<Rightarrow> IPMask" where
  "CIDRMask ones bits =
     (if bits \<noteq> 32 \<and> bits \<noteq> 128 then []
      else if ones > bits then []
      else CIDRMask_loop ones (bits div 8))"

definition allFF :: "byte list \<Rightarrow> bool" where
  "allFF b = list_all (\<lambda>c. c = 0xff) b"

text \<open>\<open>ip.Mask(mask)\<close>, the method of \<open>IP\<close>.\<close>

definition IP_Mask :: "IP \<Rightarrow> IPMask \<Rightarrow> IP" where
  "IP_Mask ip0 mask0 =
     (let mask = (if length mask0 = 16 \<and> length ip0 = 4 \<and> allFF (take 12 mask0)
                  then drop 12 mask0 else mask0);
          ip = (if length mask = 4 \<and> length ip0 = 16 \<and> take 12 ip0 = v4InV6Prefix
                then drop 12 ip0 else ip0)
      in if length ip \<noteq> length mask then [] else map2 (AND) ip mask)"

definition networkNumberAndMask :: "IPNet \<Rightarrow> (IP \<times> IPMask) option" where
  "networkNumberAndMask n =
     (let ip4 = To4 (IP n) in
      if ip4 = [] \<and> length (IP n) \<noteq> 16 then None
      else
        let ip = (if ip4 = [] then IP n else ip4); m = Mask n in
        if length m = 4 then (if length ip \<noteq> 4 then None else Some (ip, m))
        else if length m = 16 then (if length ip = 4 then Some (ip, drop 12 m) else Some (ip, m))
        else None)"

definition Contains :: "IPNet \<Rightarrow> IP \<Rightarrow> bool" where
  "Contains n ip0 =
     (case networkNumberAndMask n of
        None \<Rightarrow> False
      | Some (nn, m) \<Rightarrow>
          (let ip = (if To4 ip0 \<noteq> [] then To4 ip0 else ip0) in
           if length ip \<noteq> length nn then False
           else map2 (AND) nn m = map2 (AND) ip m))"

definition IPv6loopback :: IP where
  "IPv6loopback = [0, 0, 0, 0, 0, 0, 0, 0, 0, 0, 0, 0, 0, 0, 0, 1]"

definition IP_Equal :: "IP \<Rightarrow> IP \<Rightarrow> bool" where
  "IP_Equal ip x =
     (if length ip = length x then ip = x
      else if length ip = 4 \<and> length x = 16 then take 12 x = v4InV6Prefix \<and> ip = drop 12 x
      else if length ip = 16 \<and> length x = 4 then take 12 ip = v4InV6Prefix \<and> drop 12 ip = x
      else False)"

definition IsLoopback :: "IP \<Rightarrow> bool" where
  "IsLoopback ip = (if To4 ip \<noteq> [] then To4 ip ! 0 = 127 else IP_Equal ip IPv6loopback)"

definition IsLinkLocalUnicast :: "IP \<Rightarrow> bool" where
  "IsLinkLocalUnicast ip =
     (if To4 ip \<noteq> [] then To4 ip ! 0 = 169 \<and> To4 ip ! 1 = 254
      else length ip = 16 \<and> ip ! 0 = 0xfe \<and> (ip ! 1) AND 0xc0 = 0x80)"

subsection \<open>Parsing addresses: \<open>netip.ParseAddr\<close>\<close>

definition isDigit :: "char \<Rightarrow> bool" where
  "isDigit c \<longleftrightarrow> of_char c \<ge> (48::nat) \<and> of_char c \<le> (57::nat)"

definition digitVal :: "char \<Rightarrow> nat" where
  "digitVal c = of_char c - 48"

text \<open>
  The loop of \<open>parseIPv4Fields\<close> over the bytes of the text: \<open>val\<close> is the octet being
  read, \<open>pos\<close> the number of octets stored, \<open>digLen\<close> the digits of the current octet;
  \<open>atStart\<close> holds at index 0 and right after a dot (the tests \<open>i == 0\<close> and
  \<open>s[i-1] == '.'\<close>), and \<open>cs = []\<close> is the test \<open>i == len(s)-1\<close>.
\<close>

fun parseIPv4Fields_loop ::
  "nat \<Rightarrow> nat \<Rightarrow> nat \<Rightarrow> byte list \<Rightarrow> bool \<Rightarrow> string \<Rightarrow> byte list option" where
  "parseIPv4Fields_loop val pos digLen flds atStart [] =
     (if pos < 3 then None else Some (flds @ [of_nat val]))"
| "parseIPv4Fields_loop val pos digLen flds atStart (c # cs) =
     (if isDigit c then
        (if digLen = 1 \<and> val = 0 then None
         else if val * 10 + digitVal c > 255 then None
         else parseIPv4Fields_loop (val * 10 + digitVal c) pos (Suc digLen) flds False cs)
      else if c = CHR ''.'' then
        (if atStart \<or> cs = [] then None
         else if pos = 3 then None
         else parseIPv4Fields_loop 0 (Suc pos) 0 (flds @ [of_nat val]) True cs)
      else None)"

definition parseIPv4Fields :: "string \<Rightarrow> byte list option" where
  "parseIPv4Fields s = parseIPv4Fields_loop 0 0 0 [] True s"

text \<open>
  A parsed address is an IPv4 address (four bytes) or an IPv6 address (sixteen bytes).  An
  address with a zone is left out: \<open>net.ParseIP\<close> and \<open>net.ParseCIDR\<close> refuse it, and
  every text with a percent sign either fails to parse or has a zone.
\<close>

datatype Addr = Addr4 "byte list" | Addr6 "byte list"

definition parseIPv4 :: "string \<Rightarrow> Addr option" where
  "parseIPv4 s = map_option Addr4 (parseIPv4Fields s)"

definition isHexDigit :: "char \<Rightarrow> bool" where
  "isHexDigit c \<longleftrightarrow>
     (of_char c \<ge> (48::nat) \<and> of_char c \<le> (57::nat)) \<or>
     (of_char c \<ge> (97::nat) \<and> of_char c \<le> (102::nat)) \<or>
     (of_char c \<ge> (65::nat) \<and> of_char c \<le> (70::nat))"

definition hexVal :: "char \<Rightarrow> nat" where
  "hexVal c =
     (if of_char c \<ge> (48::nat) \<and> of_char c \<le> (57::nat) then of_char c - 48
      else if of_char c \<ge> (97::nat) \<and> of_char c \<le> (102::nat) then of_char c - 97 + 10
      else of_char c - 65 + 10)"

definition hexGroup :: "string \<Rightarrow> nat" where
  "hexGroup g = foldl (\<lambda>acc c. acc * 16 + hexVal c) 0 g"

text \<open>
  The main loop of \<open>parseIPv6\<close>, entered after a leading \<open>::\<close> has been removed: \<open>ip\<close>
  holds the bytes written so far (the index \<open>i\<close> of the source is its length),
  \<open>ellipsis\<close> the position of the \<open>::\<close> if one was seen, \<open>s\<close> the text left.  The group is
  the longest run of hex digits at the head of \<open>s\<close>; the source fails at its fifth digit.
  The result is the state at the loop's exit, or \<open>None\<close> for a parse error.
\<close>

function parseIPv6_loop ::
  "byte list \<Rightarrow> nat option \<Rightarrow> string \<Rightarrow> (byte list \<times> nat option \<times> string) option" where
  "parseIPv6_loop ip ellipsis s =
     (if \<not> length ip < 16 then Some (ip, ellipsis, s)
      else if length (takeWhile isHexDigit s) > 4 then None
      else if length (takeWhile isHexDigit s) = 0 then None
      else if dropWhile isHexDigit s \<noteq> [] \<and> hd (dropWhile isHexDigit s) = CHR ''.'' then
        (if ellipsis = None \<and> length ip \<noteq> 12 then None
         else if length ip + 4 > 16 then None
         else (case parseIPv4Fields s of
                 None \<Rightarrow> None
               | Some f \<Rightarrow> Some (ip @ f, ellipsis, [])))
      else if dropWhile isHexDigit s = [] then
        Some (ip @ [of_nat (hexGroup (takeWhile isHexDigit s) div 256),
                    of_nat (hexGroup (takeWhile isHexDigit s))], ellipsis, [])
      else if hd (dropWhile isHexDigit s) \<noteq> CHR '':'' then None
      else if length (dropWhile isHexDigit s) = 1 then None
      else if hd (tl (dropWhile isHexDigit s)) = CHR '':'' then
        (if ellipsis \<noteq> None then None
         else if tl (tl (dropWhile isHexDigit s)) = [] then
           Some (ip @ [of_nat (hexGroup (takeWhile isHexDigit s) div 256),
                       of_nat (hexGroup (takeWhile isHexDigit s))], Some (length ip + 2), [])
         else parseIPv6_loop
                (ip @ [of_nat (hexGroup (takeWhile isHexDigit s) div 256),
                       of_nat (hexGroup (takeWhile isHexDigit s))])
                (Some (length ip + 2)) (tl (tl (dropWhile isHexDigit s))))
      else parseIPv6_loop
             (ip @ [of_nat (hexGroup (takeWhile isHexDigit s) div 256),
                    of_nat (hexGroup (takeWhile isHexDigit s))])
             ellipsis (tl (dropWhile isHexDigit s)))"
  by pat_completeness auto
termination
proof (relation "measure (\<lambda>(ip, e, s). length s)")
  show "wf (measure (\<lambda>(ip, e, s). length s))" by simp
next
  fix ip :: "byte list" and ellipsis :: "nat option" and s :: string
  assume "\<not> length (takeWhile isHexDigit s) = 0"
  then have shorter: "length (dropWhile isHexDigit s) < length s"
    by (metis length_0_conv length_dropWhile_le le_neq_implies_less takeWhile_eq_all_conv
        takeWhile_dropWhile_id append_self_conv length_append add_cancel_left_left)
  then show "((ip @ [of_nat (hexGroup (takeWhile isHexDigit s) div 256),
                    of_nat (hexGroup (takeWhile isHexDigit s))], Some (length ip + 2),
               tl (tl (dropWhile isHexDigit s))), ip, ellipsis, s)
             \<in> measure (\<lambda>(ip, e, s). length s)"
    by simp
  from shorter
  show "((ip @ [of_nat (hexGroup (takeWhile isHexDigit s) div 256),
                    of_nat (hexGroup (takeWhile isHexDigit s))], ellipsis,
               tl (dropWhile isHexDigit s)), ip, ellipsis, s)
             \<in> measure (\<lambda>(ip, e, s). length s)"
    by simp
qed

declare parseIPv6_loop.simps [simp del]

definition parseIPv6 :: "string \<Rightarrow> Addr option" where
  "parseIPv6 s =
     (if CHR ''%'' \<in> set s then None
      else
        let lead = (length s \<ge> 2 \<and> s ! 0 = CHR '':'' \<and> s ! 1 = CHR '':'');
            s1 = (if lead then drop 2 s else s)
        in if lead \<and> s1 = [] then Some (Addr6 (replicate 16 0))
           else (case parseIPv6_loop [] (if lead then Some 0 else None) s1 of
                   None \<Rightarrow> None
                 | Some (ip, ellipsis, rest) \<Rightarrow>
                     if rest \<noteq> [] then None
                     else if length ip < 16 then
                       (case ellipsis of
                          None \<Rightarrow> None
                        | Some e \<Rightarrow>
                            Some (Addr6 (take e ip @ replicate (16 - length ip) 0 @ drop e ip)))
                     else if ellipsis \<noteq> None then None
                     else Some (Addr6 ip)))"

fun ParseAddr_scan :: "string \<Rightarrow> string \<Rightarrow> Addr option" where
  "ParseAddr_scan s [] = None"
| "ParseAddr_scan s (c # cs) =
     (if c = CHR ''.'' then parseIPv4 s
      else if c = CHR '':'' then parseIPv6 s
      else if c = CHR ''%'' then None
      else ParseAddr_scan s cs)"

definition ParseAddr :: "string \<Rightarrow> Addr option" where
  "ParseAddr s = ParseAddr_scan s s"

fun BitLen :: "Addr \<Rightarrow> nat" where
  "BitLen (Addr4 b) = 32"
| "BitLen (Addr6 b) = 128"

fun As16 :: "Addr \<Rightarrow> IP" where
  "As16 (Addr4 b) = v4InV6Prefix @ b"
| "As16 (Addr6 b) = b"

definition ParseIP :: "string \<Rightarrow> IP" where
  "ParseIP s = (case ParseAddr s of None \<Rightarrow> [] | Some a \<Rightarrow> As16 a)"

subsection \<open>\<open>net.ParseCIDR\<close>\<close>

definition big :: nat where
  "big = 0xFFFFFF"

text \<open>\<open>dtoi\<close>: the decimal number at the head of a text, the number of bytes read, success.\<close>

fun dtoi_loop :: "nat \<Rightarrow> nat \<Rightarrow> string \<Rightarrow> nat \<times> nat \<times> bool" where
  "dtoi_loop n i [] = (if i = 0 then (0, 0, False) else (n, i, True))"
| "dtoi_loop n i (c # cs) =
     (if isDigit c then
        (if n * 10 + digitVal c \<ge> big then (big, i, False)
         else dtoi_loop (n * 10 + digitVal c) (Suc i) cs)
      else if i = 0 then (0, 0, False) else (n, i, True))"

definition dtoi :: "string \<Rightarrow> nat \<times> nat \<times> bool" where
  "dtoi s = dtoi_loop 0 0 s"

text \<open>
  \<open>ParseCIDR\<close> splits the text at its first slash, parses the address and the prefix
  length, and returns the network: the address masked, and the mask.  (The address itself,
  its first result, is dropped by every caller in the repository.)
\<close>

definition ParseCIDR :: "string \<Rightarrow> IPNet option" where
  "ParseCIDR s =
     (if CHR ''/'' \<notin> set s then None
      else
        (case ParseAddr (takeWhile (\<lambda>c. c \<noteq> CHR ''/'') s) of
           None \<Rightarrow> None
         | Some ipAddr \<Rightarrow>
             (case dtoi (tl (dropWhile (\<lambda>c. c \<noteq> CHR ''/'') s)) of
                (n, i, ok) \<Rightarrow>
                  if \<not> ok \<or> i \<noteq> length (tl (dropWhile (\<lambda>c. c \<noteq> CHR ''/'') s))
                     \<or> n > BitLen ipAddr
                  then None
                  else Some \<lparr>IP = IP_Mask (As16 ipAddr) (CIDRMask n (BitLen ipAddr)),
                             Mask = CIDRMask n (BitLen ipAddr)\<rparr>)))"

text \<open>
  The addresses of a network are the addresses it \<open>Contains\<close>; two networks overlap when
  they share an address.  This is the meaning of ``overlap'' in the properties below; the
  code's test is \<open>networksOverlap\<close>.
\<close>

definition cidr_overlap :: "IPNet \<Rightarrow> IPNet \<Rightarrow> bool" where
  "cidr_overlap n1 n2 \<longleftrightarrow> (\<exists>ip. Contains n1 ip \<and> Contains n2 ip)"

text \<open>
  The shape of a network that \<open>ParseCIDR\<close> returns: an address of four or sixteen bytes
  and a prefix mask of the same length.
\<close>

definition wf_net :: "IPNet \<Rightarrow> bool" where
  "wf_net n \<longleftrightarrow>
     (\<exists>k. (length (IP n) = 4 \<and> Mask n = CIDRMask_loop k 4)
        \<or> (length (IP n) = 16 \<and> Mask n = CIDRMask_loop k 16))"

section \<open>Isolation runner: \<open>pkg/config/network_security.go\<close>\<close>

definition LocalhostIPv4 :: string where "LocalhostIPv4 = ''127.0.0.0/8''"
definition LocalhostIPv6 :: string where "LocalhostIPv6 = ''::1/128''"
definition CloudMetadata :: string where "CloudMetadata = ''169.254.169.254/32''"
definition LinkLocal :: string where "LinkLocal = ''169.254.0.0/16''"
definition Private10 :: string where "Private10 = ''10.0.0.0/8''"
definition Private172 :: string where "Private172 = ''172.16.0.0/12''"
definition Private192 :: string where "Private192 = ''192.168.0.0/16''"
definition Multicast :: string where "Multicast = ''224.0.0.0/4''"
definition Reserved240 :: string where "Reserved240 = ''240.0.0.0/4''"
definition Broadcast :: string where "Broadcast = ''255.255.255.255/32''"
definition ZeroConf :: string where "ZeroConf = ''0.0.0.0/8''"

definition MandatoryBlockedRanges :: "string list" where
  "MandatoryBlockedRanges =
     [LocalhostIPv4, LocalhostIPv6, CloudMetadata, LinkLocal, Multicast, Reserved240,
      Broadcast, ZeroConf]"

definition PrivateRanges :: "string list" where
  "PrivateRanges = [Private10, Private172, Private192]"

record WhitelistEntry =
  wl_CIDR :: string
  wl_Description :: string
  wl_Ports :: "string list"

record BlacklistEntry =
  bl_CIDR :: string
  bl_Description :: string

record NetworkConfig =
  Whitelist :: "WhitelistEntry list"
  Blacklist :: "BlacklistEntry list"
  DefaultPolicy :: string
  BlockMetadata :: bool
  AllowDNS :: bool
  DNSServers :: "string list"

text \<open>The errors of the package (\<open>fmt.Errorf\<close> values), one constructor per message.\<close>

datatype config_error =
    CIDREmpty
  | InvalidCIDRFormat string
  | OverlapsForbidden string string
  | InvalidPortRange string
  | PortRangeStartOutOfRange nat
  | PortRangeEndOutOfRange nat
  | PortRangeEndNotGreater nat nat
  | InvalidPort string
  | PortOutOfRange nat
  | WhitelistEntryInvalid nat config_error
  | NilNetworkConfig
  | EnforceFailed config_error
  | BadDefaultPolicy string
  | DNSInvalidIP nat string
  | DNSForbiddenRange nat string string

definition networksOverlap :: "IPNet \<Rightarrow> IPNet \<Rightarrow> bool" where
  "networksOverlap net1 net2 \<longleftrightarrow> Contains net1 (IP net2) \<or> Contains net2 (IP net1)"

subsection \<open>Port texts: \<open>fmt.Sscanf\<close> into a \<open>uint32\<close>\<close>

text \<open>
  \<open>fmt.Sscanf\<close> with the verb \<open>%d\<close> and a \<open>uint32\<close> operand, on ASCII input: blanks
  are skipped (a newline is an error), the token is the longest run of digits and
  underscores, it must be non-empty, \<open>strconv.ParseUint\<close> in base 10 refuses an underscore
  and a value beyond 64 bits, and the value must fit 32 bits.  Input after the last verb is
  ignored.  The result is the number and the input left.
\<close>

definition isSpaceByte :: "char \<Rightarrow> bool" where
  "isSpaceByte c \<longleftrightarrow> c = CHR '' '' \<or> (of_char c \<ge> (9::nat) \<and> of_char c \<le> (13::nat))"

fun SkipSpace :: "string \<Rightarrow> string option" where
  "SkipSpace [] = Some []"
| "SkipSpace (c # cs) =
     (if c = CHR 0x0A then None
      else if isSpaceByte c then SkipSpace cs
      else Some (c # cs))"

definition decimalValue :: "string \<Rightarrow> nat" where
  "decimalValue tok = foldl (\<lambda>acc c. acc * 10 + digitVal c) 0 tok"

definition scanUint32 :: "string \<Rightarrow> (nat \<times> string) option" where
  "scanUint32 s =
     (case SkipSpace s of
        None \<Rightarrow> None
      | Some s1 \<Rightarrow>
          let tok = takeWhile (\<lambda>c. isDigit c \<or> c = CHR ''_'') s1 in
          if tok = [] then None
          else if CHR ''_'' \<in> set tok then None
          else if decimalValue tok \<ge> 2 ^ 32 then None
          else Some (decimalValue tok, drop (length tok) s1))"

definition Sscanf_d :: "string \<Rightarrow> nat option" where
  "Sscanf_d s = map_option fst (scanUint32 s)"

definition Sscanf_d_d :: "string \<Rightarrow> (nat \<times> nat) option" where
  "Sscanf_d_d s =
     (case scanUint32 s of
        None \<Rightarrow> None
      | Some (a, rest) \<Rightarrow>
          (case rest of
             [] \<Rightarrow> None
           | c # rest' \<Rightarrow>
               if c \<noteq> CHR ''-'' then None
               else (case scanUint32 rest' of
                       None \<Rightarrow> None
                     | Some (b, _) \<Rightarrow> Some (a, b))))"

fun validatePorts :: "string list \<Rightarrow> config_error option" where
  "validatePorts [] = None"
| "validatePorts (port # ports) =
     (if CHR ''-'' \<in> set port then
        (case Sscanf_d_d port of
           None \<Rightarrow> Some (InvalidPortRange port)
         | Some (startPort, endPort) \<Rightarrow>
             if startPort = 0 \<or> startPort > 65535 then Some (PortRangeStartOutOfRange startPort)
             else if endPort = 0 \<or> endPort > 65535 then Some (PortRangeEndOutOfRange endPort)
             else if endPort \<le> startPort then Some (PortRangeEndNotGreater endPort startPort)
             else validatePorts ports)
      else
        (case Sscanf_d port of
           None \<Rightarrow> Some (InvalidPort port)
         | Some portNum \<Rightarrow>
             if portNum = 0 \<or> portNum > 65535 then Some (PortOutOfRange portNum)
             else validatePorts ports))"

subsection \<open>\<open>ValidateWhitelistEntry\<close> and \<open>EnforceSecurityRules\<close>\<close>

text \<open>The loop over \<open>MandatoryBlockedRanges\<close>; a range that does not parse is skipped.\<close>

fun checkMandatoryBlocked :: "string \<Rightarrow> IPNet \<Rightarrow> string list \<Rightarrow> config_error option" where
  "checkMandatoryBlocked cidr entryNet [] = None"
| "checkMandatoryBlocked cidr entryNet (blockedCIDR # rest) =
     (case ParseCIDR blockedCIDR of
        None \<Rightarrow> checkMandatoryBlocked cidr entryNet rest
      | Some blockedNet \<Rightarrow>
          if networksOverlap entryNet blockedNet then Some (OverlapsForbidden cidr blockedCIDR)
          else checkMandatoryBlocked cidr entryNet rest)"

definition ValidateWhitelistEntry :: "WhitelistEntry \<Rightarrow> config_error option" where
  "ValidateWhitelistEntry entry =
     (if wl_CIDR entry = [] then Some CIDREmpty
      else
        (case ParseCIDR (wl_CIDR entry) of
           None \<Rightarrow> Some (InvalidCIDRFormat (wl_CIDR entry))
         | Some entryNet \<Rightarrow>
             if wl_CIDR entry = ''0.0.0.0/0'' \<or> wl_CIDR entry = ''::/0'' then None
             else
               (case checkMandatoryBlocked (wl_CIDR entry) entryNet MandatoryBlockedRanges of
                  Some e \<Rightarrow> Some e
                | None \<Rightarrow> validatePorts (wl_Ports entry))))"

definition mandatoryDescription :: "string \<Rightarrow> string" where
  "mandatoryDescription cidr =
     (case map_of
        [(LocalhostIPv4, ''Localhost (MANDATORY BLOCK)''),
         (LocalhostIPv6, ''Localhost IPv6 (MANDATORY BLOCK)''),
         (CloudMetadata, ''Cloud provider metadata service (MANDATORY BLOCK)''),
         (LinkLocal, ''Link-local addresses (MANDATORY BLOCK)''),
         (Multicast, ''Multicast addresses (MANDATORY BLOCK)''),
         (Reserved240, ''Reserved addresses (MANDATORY BLOCK)''),
         (Broadcast, ''Broadcast address (MANDATORY BLOCK)''),
         (ZeroConf, ''Zero configuration network (MANDATORY BLOCK)'')] cidr of
        None \<Rightarrow> ''Mandatory security block''
      | Some desc \<Rightarrow> if desc = [] then ''Mandatory security block'' else desc)"

definition createMandatoryBlacklist :: "BlacklistEntry list" where
  "createMandatoryBlacklist =
     map (\<lambda>cidr. \<lparr>bl_CIDR = cidr, bl_Description = mandatoryDescription cidr\<rparr>)
       MandatoryBlockedRanges"

text \<open>The inner loop of \<open>filterPrivateRanges\<close>: is some whitelist entry overlapping?\<close>

fun isWhitelisted :: "IPNet \<Rightarrow> WhitelistEntry list \<Rightarrow> bool" where
  "isWhitelisted privateNet [] = False"
| "isWhitelisted privateNet (entry # rest) =
     (case ParseCIDR (wl_CIDR entry) of
        None \<Rightarrow> isWhitelisted privateNet rest
      | Some entryNet \<Rightarrow>
          if networksOverlap privateNet entryNet then True
          else isWhitelisted privateNet rest)"

fun filterPrivateRanges_loop :: "WhitelistEntry list \<Rightarrow> string list \<Rightarrow> BlacklistEntry list" where
  "filterPrivateRanges_loop whitelist [] = []"
| "filterPrivateRanges_loop whitelist (privateRange # rest) =
     (case ParseCIDR privateRange of
        None \<Rightarrow> filterPrivateRanges_loop whitelist rest
      | Some privateNet \<Rightarrow>
          if \<not> isWhitelisted privateNet whitelist
          then \<lparr>bl_CIDR = privateRange,
                bl_Description =
                  ''Private IP range '' @ privateRange @ '' (blocked unless whitelisted)''\<rparr>
               # filterPrivateRanges_loop whitelist rest
          else filterPrivateRanges_loop whitelist rest)"

definition filterPrivateRanges :: "WhitelistEntry list \<Rightarrow> BlacklistEntry list" where
  "filterPrivateRanges whitelist = filterPrivateRanges_loop whitelist PrivateRanges"

text \<open>
  \<open>strings.ToLower\<close> and \<open>strings.TrimSpace\<close> on ASCII text (bytes from 0x80 on, which no
  CIDR text contains, are left alone by this model).
\<close>

definition toLowerByte :: "char \<Rightarrow> char" where
  "toLowerByte c =
     (if of_char c \<ge> (65::nat) \<and> of_char c \<le> (90::nat) then char_of (of_char c + (32::nat))
      else c)"

definition strings_ToLower :: "string \<Rightarrow> string" where
  "strings_ToLower s = map toLowerByte s"

definition strings_TrimSpace :: "string \<Rightarrow> string" where
  "strings_TrimSpace s = rev (dropWhile isSpaceByte (rev (dropWhile isSpaceByte s)))"

fun deduplicateBlacklist_loop ::
  "string set \<Rightarrow> BlacklistEntry list \<Rightarrow> BlacklistEntry list" where
  "deduplicateBlacklist_loop seen [] = []"
| "deduplicateBlacklist_loop seen (entry # rest) =
     (let cidr = strings_ToLower (strings_TrimSpace (bl_CIDR entry)) in
      if cidr \<notin> seen then entry # deduplicateBlacklist_loop (insert cidr seen) rest
      else deduplicateBlacklist_loop seen rest)"

definition deduplicateBlacklist :: "BlacklistEntry list \<Rightarrow> BlacklistEntry list" where
  "deduplicateBlacklist blacklist = deduplicateBlacklist_loop {} blacklist"

text \<open>The loop of \<open>EnforceSecurityRules\<close> over the whitelist, with the index of the entry.\<close>

fun validateWhitelist :: "nat \<Rightarrow> WhitelistEntry list \<Rightarrow> config_error option" where
  "validateWhitelist i [] = None"
| "validateWhitelist i (entry # rest) =
     (case ValidateWhitelistEntry entry of
        Some err \<Rightarrow> Some (WhitelistEntryInvalid i err)
      | None \<Rightarrow> validateWhitelist (Suc i) rest)"

text \<open>
  \<open>EnforceSecurityRules\<close> changes the configuration in place; the model returns the error
  (if any) and the configuration as the call leaves it.
\<close>

definition EnforceSecurityRules :: "NetworkConfig \<Rightarrow> config_error option \<times> NetworkConfig" where
  "EnforceSecurityRules cfg0 =
     (let cfg = cfg0\<lparr>BlockMetadata := True\<rparr> in
      case validateWhitelist 0 (Whitelist cfg) of
        Some err \<Rightarrow> (Some err, cfg)
      | None \<Rightarrow>
          let cfg1 = cfg\<lparr>Blacklist := Blacklist cfg @ createMandatoryBlacklist\<rparr>;
              privateBlocks = filterPrivateRanges (Whitelist cfg1);
              cfg2 = cfg1\<lparr>Blacklist := Blacklist cfg1 @ privateBlocks\<rparr>;
              cfg3 = cfg2\<lparr>Blacklist := deduplicateBlacklist (Blacklist cfg2)\<rparr>
          in (None, cfg3))"

text \<open>The DNS loop of \<open>ValidateNetworkConfig\<close> and its inner loop over the blocked ranges.\<close>

fun dnsForbiddenRange :: "IP \<Rightarrow> string list \<Rightarrow> string option" where
  "dnsForbiddenRange ip [] = None"
| "dnsForbiddenRange ip (blockedCIDR # rest) =
     (case ParseCIDR blockedCIDR of
        None \<Rightarrow> dnsForbiddenRange ip rest
      | Some blockedNet \<Rightarrow>
          if Contains blockedNet ip then Some blockedCIDR else dnsForbiddenRange ip rest)"

fun validateDNSServers :: "nat \<Rightarrow> string list \<Rightarrow> config_error option" where
  "validateDNSServers i [] = None"
| "validateDNSServers i (dns # rest) =
     (if ParseIP dns = [] then Some (DNSInvalidIP i dns)
      else (case dnsForbiddenRange (ParseIP dns) MandatoryBlockedRanges of
              Some blockedCIDR \<Rightarrow> Some (DNSForbiddenRange i dns blockedCIDR)
            | None \<Rightarrow> validateDNSServers (Suc i) rest))"

definition ValidateNetworkConfig ::
  "NetworkConfig option \<Rightarrow> config_error option \<times> NetworkConfig option" where
  "ValidateNetworkConfig cfgp =
     (case cfgp of
        None \<Rightarrow> (Some NilNetworkConfig, None)
      | Some cfg0 \<Rightarrow>
          (case EnforceSecurityRules cfg0 of
             (Some err, cfg) \<Rightarrow> (Some (EnforceFailed err), Some cfg)
           | (None, cfg) \<Rightarrow>
               if strings_ToLower (DefaultPolicy cfg) \<noteq> ''allow''
                  \<and> strings_ToLower (DefaultPolicy cfg) \<noteq> ''deny''
               then (Some (BadDefaultPolicy (DefaultPolicy cfg)), Some cfg)
               else (validateDNSServers 0 (DNSServers cfg), Some cfg)))"

section \<open>Bastion: \<open>pkg/validation\<close>\<close>

text \<open>
  Each validator returns \<open>nil\<close> or a \<open>ValidationError\<close>; the ones that also return a
  value give \<open>Inr\<close> of it, and \<open>Inl\<close> of the error.
\<close>

definition isPrivateIP :: "IP \<Rightarrow> bool" where
  "isPrivateIP ip \<longleftrightarrow>
     (if ip ! 0 = 10 then True
      else if ip ! 0 = 172 \<and> ip ! 1 \<ge> 16 \<and> ip ! 1 \<le> 31 then True
      else if ip ! 0 = 192 \<and> ip ! 1 = 168 then True
      else False)"

definition ValidateContainerIP :: "string \<Rightarrow> ValidationError + IP" where
  "ValidateContainerIP ipStr =
     (if ParseIP ipStr = []
      then Inl (ValidationError ''container_ip'' (''invalid IP address: '' @ ipStr))
      else if To4 (ParseIP ipStr) = []
      then Inl (ValidationError ''container_ip'' ''only IPv4 addresses supported'')
      else if \<not> isPrivateIP (To4 (ParseIP ipStr))
      then Inl (ValidationError ''container_ip''
                  (''IP address is not private (RFC1918): '' @ ipStr))
      else Inr (To4 (ParseIP ipStr)))"

definition ValidateCIDR :: "string \<Rightarrow> ValidationError + IPNet" where
  "ValidateCIDR cidr =
     (case ParseCIDR cidr of
        None \<Rightarrow> Inl (ValidationError ''cidr'' (''invalid CIDR notation: '' @ cidr))
      | Some ipNet \<Rightarrow> Inr ipNet)"

text \<open>Ports are \<open>uint32\<close> values.\<close>

definition ValidatePort :: "32 word \<Rightarrow> ValidationError option" where
  "ValidatePort port =
     (if port = 0 \<or> port > 65535
      then Some (ValidationError ''port'' ''invalid port number (must be 1-65535)'')
      else None)"

definition ValidateDNSServer :: "string \<Rightarrow> ValidationError + IP" where
  "ValidateDNSServer dnsIP =
     (if ParseIP dnsIP = []
      then Inl (ValidationError ''dns_server'' (''invalid DNS server IP: '' @ dnsIP))
      else if IsLoopback (ParseIP dnsIP)
      then Inl (ValidationError ''dns_server'' (''loopback DNS servers not allowed: '' @ dnsIP))
      else if To4 (ParseIP dnsIP) \<noteq> []
              \<and> To4 (ParseIP dnsIP) ! 0 = 169 \<and> To4 (ParseIP dnsIP) ! 1 = 254
      then Inl (ValidationError ''dns_server''
                  (''link-local DNS servers not allowed: '' @ dnsIP))
      else if To4 (ParseIP dnsIP) \<noteq> []
              \<and> (dnsIP = ''169.254.169.254'' \<or> dnsIP = ''168.63.129.16''
                  \<or> dnsIP = ''100.100.100.200'')
      then Inl (ValidationError ''dns_server''
                  (''cloud metadata IPs not allowed as DNS servers: '' @ dnsIP))
      else Inr (ParseIP dnsIP))"

definition ValidatePolicyMode :: "string \<Rightarrow> ValidationError option" where
  "ValidatePolicyMode policy =
     (if policy \<noteq> ''allow'' \<and> policy \<noteq> ''deny''
      then Some (ValidationError ''policy'' (''policy must be allow or deny, got: '' @ policy))
      else None)"

text \<open>
  The RFC 1918 private ranges as networks, for stating what \<open>isPrivateIP\<close> decides, and
  the three metadata addresses and the IPv6 link-local range \<open>fe80::/10\<close> that
  \<open>ApplyRules\<close> drops.
\<close>

definition rfc1918 :: "IPNet list" where
  "rfc1918 =
     [\<lparr>IP = [10, 0, 0, 0], Mask = [255, 0, 0, 0]\<rparr>,
      \<lparr>IP = [172, 16, 0, 0], Mask = [255, 240, 0, 0]\<rparr>,
      \<lparr>IP = [192, 168, 0, 0], Mask = [255, 255, 0, 0]\<rparr>]"

definition in_rfc1918 :: "IP \<Rightarrow> bool" where
  "in_rfc1918 ip = list_ex (\<lambda>n. Contains n ip) rfc1918"

definition metadata_triplet :: "IP list" where
  "metadata_triplet = [[169, 254, 169, 254], [168, 63, 129, 16], [100, 100, 100, 200]]"

section \<open>Bastion: \<open>pkg/iptables\<close>\<close>

datatype ipVersion = ipv4 | ipv6

text \<open>
  The package runs the programs \<open>iptables\<close> and \<open>ip6tables\<close>.  What a command does is
  decided by the host, not by the code: the host is a parameter \<open>exec\<close>, which takes the
  program (by its address family), the arguments and the host's state, and returns whether
  the command succeeded and the new state.  The record \<open>host\<close> pairs the state with the
  list of the commands issued so far, each with its outcome.
\<close>

type_synonym 'w iptables_env = "ipVersion \<Rightarrow> string list \<Rightarrow> 'w \<Rightarrow> bool \<times> 'w"

record 'w host =
  env :: 'w
  issued :: "(ipVersion \<times> string list \<times> bool) list"

datatype iptables_error =
    CommandFailed ipVersion "string list"
  | InvalidIPAddress string
  | Validation ValidationError

definition runIPTables ::
  "'w iptables_env \<Rightarrow> string list \<Rightarrow> 'w host \<Rightarrow> iptables_error option \<times> 'w host" where
  "runIPTables exec args h =
     (case exec ipv4 args (env h) of
        (ok, w) \<Rightarrow>
          (if ok then None else Some (CommandFailed ipv4 args),
           h\<lparr>env := w, issued := issued h @ [(ipv4, args, ok)]\<rparr>))"

definition runIP6Tables ::
  "'w iptables_env \<Rightarrow> string list \<Rightarrow> 'w host \<Rightarrow> iptables_error option \<times> 'w host" where
  "runIP6Tables exec args h =
     (case exec ipv6 args (env h) of
        (ok, w) \<Rightarrow>
          (if ok then None else Some (CommandFailed ipv6 args),
           h\<lparr>env := w, issued := issued h @ [(ipv6, args, ok)]\<rparr>))"

definition runIPTablesForVersion ::
  "'w iptables_env \<Rightarrow> ipVersion \<Rightarrow> string list \<Rightarrow> 'w host
     \<Rightarrow> iptables_error option \<times> 'w host" where
  "runIPTablesForVersion exec version args h =
     (if version = ipv6 then runIP6Tables exec args h else runIPTables exec args h)"

definition detectIPVersion :: "string \<Rightarrow> iptables_error + ipVersion" where
  "detectIPVersion cidr =
     (let ipStr = (if CHR ''/'' \<in> set cidr then takeWhile (\<lambda>c. c \<noteq> CHR ''/'') cidr else cidr)
      in if ParseIP ipStr = [] then Inl (InvalidIPAddress cidr)
         else if To4 (ParseIP ipStr) \<noteq> [] then Inr ipv4
         else Inr ipv6)"

subsection \<open>Texts of numbers and addresses\<close>

text \<open>\<open>fmt.Sprintf("%d", n)\<close> and \<open>IP.String()\<close>.\<close>

definition digitChar :: "nat \<Rightarrow> char" where
  "digitChar d = ''0123456789'' ! d"

function showNat :: "nat \<Rightarrow> string" where
  "showNat n = (if n < 10 then [digitChar n] else showNat (n div 10) @ [digitChar (n mod 10)])"
  by pat_completeness auto
termination
  by (relation "measure id") auto

declare showNat.simps [simp del]

definition hexDigitChar :: "nat \<Rightarrow> char" where
  "hexDigitChar d = ''0123456789abcdef'' ! d"

function showHex :: "nat \<Rightarrow> string" where
  "showHex n = (if n < 16 then [hexDigitChar n] else showHex (n div 16) @ [hexDigitChar (n mod 16)])"
  by pat_completeness auto
termination
  by (relation "measure id") auto

declare showHex.simps [simp del]

definition dotted :: "byte list \<Rightarrow> string" where
  "dotted p4 =
     showNat (unat (p4 ! 0)) @ ''.'' @ showNat (unat (p4 ! 1)) @ ''.''
       @ showNat (unat (p4 ! 2)) @ ''.'' @ showNat (unat (p4 ! 3))"

definition v6u16 :: "IP \<Rightarrow> nat \<Rightarrow> nat" where
  "v6u16 ip j = unat (ip ! (2 * j)) * 256 + unat (ip ! (2 * j + 1))"

text \<open>The length of the run of zero groups that starts at group \<open>i\<close>.\<close>

fun zeroRun :: "nat list \<Rightarrow> nat" where
  "zeroRun [] = 0"
| "zeroRun (g # gs) = (if g = 0 then Suc (zeroRun gs) else 0)"

text \<open>
  The first loop of \<open>appendTo6\<close>: the first longest run of at least two zero groups, as
  its start and end; \<open>(255, 255)\<close> when there is none.
\<close>

fun longestZeroRun :: "nat list \<Rightarrow> nat \<Rightarrow> nat \<times> nat \<Rightarrow> nat \<times> nat" where
  "longestZeroRun [] i z = z"
| "longestZeroRun (g # gs) i (zeroStart, zeroEnd) =
     (let l = zeroRun (g # gs) in
      longestZeroRun gs (Suc i)
        (if l \<ge> 2 \<and> l > zeroEnd - zeroStart then (i, i + l) else (zeroStart, zeroEnd)))"

text \<open>
  The second loop, over the groups from index \<open>i\<close> on.  (A run that was found has
  \<open>zeroEnd > zeroStart\<close>; the test \<open>zeroEnd \<le> i\<close> only makes the recursion
  well-founded.)
\<close>

function appendTo6_loop :: "nat list \<Rightarrow> nat \<Rightarrow> nat \<times> nat \<Rightarrow> string" where
  "appendTo6_loop groups i (zeroStart, zeroEnd) =
     (if i \<ge> 8 then []
      else if i = zeroStart then
        (if zeroEnd \<ge> 8 \<or> zeroEnd \<le> i then ''::''
         else ''::'' @ showHex (groups ! zeroEnd)
              @ appendTo6_loop groups (Suc zeroEnd) (zeroStart, zeroEnd))
      else (if i > 0 then '':'' else [])
           @ showHex (groups ! i) @ appendTo6_loop groups (Suc i) (zeroStart, zeroEnd))"
  by pat_completeness auto
termination
  by (relation "measure (\<lambda>(g, i, z). 8 - i)") auto

declare appendTo6_loop.simps [simp del]

definition IP_String :: "IP \<Rightarrow> string" where
  "IP_String ip =
     (if length ip = 0 then ''<nil>''
      else if length ip \<noteq> 4 \<and> length ip \<noteq> 16
      then ''?'' @ concat (map (\<lambda>b. [hexDigitChar (unat b div 16), hexDigitChar (unat b mod 16)]) ip)
      else if length (To4 ip) = 4 then dotted (To4 ip)
      else appendTo6_loop (map (v6u16 ip) [0..<8]) 0
             (longestZeroRun (map (v6u16 ip) [0..<8]) 0 (255, 255)))"

subsection \<open>\<open>SetupChain\<close>\<close>

definition SetupChain ::
  "'w iptables_env \<Rightarrow> string \<Rightarrow> IP \<Rightarrow> 'w host \<Rightarrow> iptables_error option \<times> 'w host" where
  "SetupChain exec chainName containerIP h =
     (let containerVersion = (if To4 containerIP = [] then ipv6 else ipv4) in
      case runIPTables exec [''-N'', chainName] h of
        (Some err, h1) \<Rightarrow> (Some err, h1)
      | (None, h1) \<Rightarrow>
          (case runIP6Tables exec [''-N'', chainName] h1 of
             (Some err, h2) \<Rightarrow> (Some err, snd (runIPTables exec [''-X'', chainName] h2))
           | (None, h2) \<Rightarrow>
               (case runIPTablesForVersion exec containerVersion
                       [''-I'', ''FORWARD'', ''1'', ''-s'', IP_String containerIP, ''-j'', chainName] h2 of
                  (Some err, h3) \<Rightarrow>
                    (Some err,
                     snd (runIP6Tables exec [''-X'', chainName]
                       (snd (runIPTables exec [''-X'', chainName]
                         (snd (runIPTablesForVersion exec containerVersion
                                 [''-X'', chainName] h3))))))
                | (None, h3) \<Rightarrow> (None, h3))))"

subsection \<open>\<open>ApplyRules\<close>\<close>

record NetworkRule =
  Cidr :: string
  RuleDescription :: "string option"
  Ports :: "32 word list"

record NetworkPolicy =
  Policy :: string
  PolicyBlockMetadata :: bool
  AllowDns :: bool
  DnsServers :: "string list"
  PolicyWhitelist :: "NetworkRule list"
  PolicyBlacklist :: "NetworkRule list"

text \<open>
  \<open>dockerBridgeSubnets\<close> asks the container engine for the subnets of its default bridge.
  The argument is what the inspection gave: \<open>None\<close> when the command failed or its output
  was empty, \<open>null\<close> or not decodable, else the \<open>Subnet\<close> fields of the decoded list.
\<close>

definition dockerBridgeSubnets :: "string list option \<Rightarrow> string list" where
  "dockerBridgeSubnets inspected =
     (case inspected of
        None \<Rightarrow> [''172.17.0.0/16'']
      | Some configs \<Rightarrow>
          (if filter (\<lambda>s. s \<noteq> []) configs = [] then [''172.17.0.0/16'']
           else filter (\<lambda>s. s \<noteq> []) configs))"

text \<open>
  A run of \<open>ApplyRules\<close> carries the count \<open>rulesApplied\<close>, the error if it has stopped,
  and the host.  \<open>andThen\<close> goes on with the next step unless an error was returned.
\<close>

type_synonym 'w applied = "(nat \<times> iptables_error option) \<times> 'w host"

definition andThen :: "'w applied \<Rightarrow> (nat \<Rightarrow> 'w host \<Rightarrow> 'w applied) \<Rightarrow> 'w applied" where
  "andThen r f = (case r of ((n, Some err), h) \<Rightarrow> ((n, Some err), h) | ((n, None), h) \<Rightarrow> f n h)"

text \<open>A loop that runs the commands of a list, counting each success.\<close>

fun runRules ::
  "'w iptables_env \<Rightarrow> (ipVersion \<times> string list) list \<Rightarrow> nat \<Rightarrow> 'w host \<Rightarrow> 'w applied" where
  "runRules exec [] n h = ((n, None), h)"
| "runRules exec ((version, args) # rest) n h =
     (case runIPTablesForVersion exec version args h of
        (Some err, h1) \<Rightarrow> ((n, Some err), h1)
      | (None, h1) \<Rightarrow> runRules exec rest (Suc n) h1)"

fun bridgeDrops ::
  "'w iptables_env \<Rightarrow> string \<Rightarrow> string list \<Rightarrow> nat \<Rightarrow> 'w host \<Rightarrow> 'w applied" where
  "bridgeDrops exec chainName [] n h = ((n, None), h)"
| "bridgeDrops exec chainName (subnet # rest) n h =
     (case detectIPVersion subnet of
        Inl err \<Rightarrow> bridgeDrops exec chainName rest n h
      | Inr version \<Rightarrow>
          (case runIPTablesForVersion exec version
                  [''-A'', chainName, ''-d'', subnet, ''-j'', ''DROP''] h of
             (Some err, h1) \<Rightarrow> ((n, Some err), h1)
           | (None, h1) \<Rightarrow> bridgeDrops exec chainName rest (Suc n) h1))"

definition ipv4Rules :: "string \<Rightarrow> bool \<Rightarrow> string list list" where
  "ipv4Rules chainName allowDns =
     (if allowDns
      then map (\<lambda>proto. [''-A'', chainName, ''-d'', ''127.0.0.11/32'', ''-p'', proto,
                          ''--dport'', ''53'', ''-j'', ''ACCEPT'']) [''udp'', ''tcp'']
      else [])
     @ [[''-A'', chainName, ''-d'', ''169.254.169.254'', ''-j'', ''DROP''],
        [''-A'', chainName, ''-d'', ''168.63.129.16'', ''-j'', ''DROP''],
        [''-A'', chainName, ''-d'', ''100.100.100.200'', ''-j'', ''DROP''],
        [''-A'', chainName, ''-d'', ''169.254.0.0/16'', ''-j'', ''DROP''],
        [''-A'', chainName, ''-d'', ''127.0.0.0/8'', ''-j'', ''DROP''],
        [''-A'', chainName, ''-p'', ''udp'', ''--dport'', ''67:68'', ''-j'', ''DROP'']]"

definition ipv6Rules :: "string \<Rightarrow> string list list" where
  "ipv6Rules chainName =
     [[''-A'', chainName, ''-d'', ''::1/128'', ''-j'', ''DROP''],
      [''-A'', chainName, ''-d'', ''fe80::/10'', ''-j'', ''DROP''],
      [''-A'', chainName, ''-d'', ''ff00::/8'', ''-j'', ''DROP'']]"

definition metadataBlocks ::
  "'w iptables_env \<Rightarrow> string \<Rightarrow> NetworkPolicy \<Rightarrow> nat \<Rightarrow> 'w host \<Rightarrow> 'w applied" where
  "metadataBlocks exec chainName policy n h =
     (if PolicyBlockMetadata policy
      then andThen (runRules exec (map (Pair ipv4) (ipv4Rules chainName (AllowDns policy))) n h)
             (runRules exec (map (Pair ipv6) (ipv6Rules chainName)))
      else ((n, None), h))"

definition dnsAnyServer :: "string \<Rightarrow> (ipVersion \<times> string list) list" where
  "dnsAnyServer chainName =
     concat (map (\<lambda>proto.
        [(ipv4, [''-A'', chainName, ''-p'', proto, ''--dport'', ''53'', ''-j'', ''ACCEPT'']),
         (ipv6, [''-A'', chainName, ''-p'', proto, ''--dport'', ''53'', ''-j'', ''ACCEPT''])])
       [''udp'', ''tcp''])"

fun dnsServers ::
  "'w iptables_env \<Rightarrow> string \<Rightarrow> string list \<Rightarrow> nat \<Rightarrow> 'w host \<Rightarrow> 'w applied" where
  "dnsServers exec chainName [] n h = ((n, None), h)"
| "dnsServers exec chainName (dns # rest) n h =
     (case ValidateDNSServer dns of
        Inl err \<Rightarrow> ((n, Some (Validation err)), h)
      | Inr ip \<Rightarrow>
          (case detectIPVersion dns of
             Inl err \<Rightarrow> ((n, Some err), h)
           | Inr version \<Rightarrow>
               andThen
                 (runRules exec
                    (map (\<lambda>proto. (version, [''-A'', chainName, ''-d'', dns, ''-p'', proto,
                                             ''--dport'', ''53'', ''-j'', ''ACCEPT'']))
                       [''udp'', ''tcp'']) n h)
                 (dnsServers exec chainName rest)))"

definition dnsRules ::
  "'w iptables_env \<Rightarrow> string \<Rightarrow> NetworkPolicy \<Rightarrow> nat \<Rightarrow> 'w host \<Rightarrow> 'w applied" where
  "dnsRules exec chainName policy n h =
     (if AllowDns policy
      then andThen (runRules exec (dnsAnyServer chainName) n h)
             (dnsServers exec chainName (DnsServers policy))
      else ((n, None), h))"

text \<open>The loop of \<open>applyNetworkRule\<close> over the ports of a rule.\<close>

fun portRules ::
  "'w iptables_env \<Rightarrow> ipVersion \<Rightarrow> string \<Rightarrow> string \<Rightarrow> string \<Rightarrow> 32 word list
     \<Rightarrow> nat \<Rightarrow> 'w host \<Rightarrow> 'w applied" where
  "portRules exec version chainName cidr action [] n h = ((n, None), h)"
| "portRules exec version chainName cidr action (port # rest) n h =
     (case ValidatePort port of
        Some err \<Rightarrow> ((n, Some (Validation err)), h)
      | None \<Rightarrow>
          andThen
            (runRules exec
               (map (\<lambda>proto. (version, [''-A'', chainName, ''-d'', cidr, ''-p'', proto,
                                        ''--dport'', showNat (unat port), ''-j'', action]))
                  [''tcp'', ''udp'']) n h)
            (portRules exec version chainName cidr action rest))"

definition applyNetworkRule ::
  "'w iptables_env \<Rightarrow> string \<Rightarrow> NetworkRule \<Rightarrow> string \<Rightarrow> 'w host \<Rightarrow> 'w applied" where
  "applyNetworkRule exec chainName rule action h =
     (case ValidateCIDR (Cidr rule) of
        Inl err \<Rightarrow> ((0, Some (Validation err)), h)
      | Inr ipNet \<Rightarrow>
          (case detectIPVersion (Cidr rule) of
             Inl err \<Rightarrow> ((0, Some err), h)
           | Inr version \<Rightarrow>
               if length (Ports rule) = 0
               then runRules exec
                      [(version, [''-A'', chainName, ''-d'', Cidr rule, ''-j'', action])] 0 h
               else portRules exec version chainName (Cidr rule) action (Ports rule) 0 h))"

text \<open>
  The loops of \<open>ApplyRules\<close> over the whitelist and the blacklist.  When
  \<open>applyNetworkRule\<close> fails, \<open>ApplyRules\<close> returns its own count, without the rules the
  failed call had added.
\<close>

fun networkRules ::
  "'w iptables_env \<Rightarrow> string \<Rightarrow> string \<Rightarrow> NetworkRule list \<Rightarrow> nat \<Rightarrow> 'w host \<Rightarrow> 'w applied" where
  "networkRules exec chainName action [] n h = ((n, None), h)"
| "networkRules exec chainName action (rule # rest) n h =
     (case applyNetworkRule exec chainName rule action h of
        ((cnt, Some err), h1) \<Rightarrow> ((n, Some err), h1)
      | ((cnt, None), h1) \<Rightarrow> networkRules exec chainName action rest (n + cnt) h1)"

definition ApplyRules ::
  "'w iptables_env \<Rightarrow> string list \<Rightarrow> string \<Rightarrow> NetworkPolicy \<Rightarrow> 'w host \<Rightarrow> 'w applied" where
  "ApplyRules exec bridgeSubnets chainName policy h =
     (case ValidatePolicyMode (Policy policy) of
        Some err \<Rightarrow> ((0, Some (Validation err)), h)
      | None \<Rightarrow>
          andThen (andThen (andThen (andThen (andThen
            (bridgeDrops exec chainName bridgeSubnets 0 h)
            (metadataBlocks exec chainName policy))
            (dnsRules exec chainName policy))
            (\<lambda>n h1. if Policy policy = ''deny'' \<and> length (PolicyWhitelist policy) > 0
                     then networkRules exec chainName ''ACCEPT'' (PolicyWhitelist policy) n h1
                     else ((n, None), h1)))
            (\<lambda>n h1. if Policy policy = ''allow'' \<and> length (PolicyBlacklist policy) > 0
                     then networkRules exec chainName ''DROP'' (PolicyBlacklist policy) n h1
                     else ((n, None), h1)))
            (runRules exec
               [(ipv4, [''-A'', chainName, ''-j'',
                        if Policy policy = ''deny'' then ''DROP'' else ''ACCEPT'']),
                (ipv6, [''-A'', chainName, ''-j'',
                        if Policy policy = ''deny'' then ''DROP'' else ''ACCEPT''])]))"

subsection \<open>\<open>CleanupChain\<close>\<close>

text \<open>Every command's error is dropped; the function returns \<open>nil\<close>.\<close>

definition CleanupChain ::
  "'w iptables_env \<Rightarrow> string \<Rightarrow> string \<Rightarrow> 'w host \<Rightarrow> iptables_error option \<times> 'w host" where
  "CleanupChain exec chainName containerIP h =
     (let h1 =
        (if containerIP \<noteq> []
         then snd (runIPTablesForVersion exec
                     (case detectIPVersion containerIP of Inl err \<Rightarrow> ipv4 | Inr v \<Rightarrow> v)
                     [''-D'', ''FORWARD'', ''-s'', containerIP, ''-j'', chainName] h)
         else h);
          h2 = snd (runIPTables exec [''-F'', chainName] h1);
          h3 = snd (runIPTables exec [''-X'', chainName] h2);
          h4 = snd (runIP6Tables exec [''-F'', chainName] h3);
          h5 = snd (runIP6Tables exec [''-X'', chainName] h4)
      in (None, h5))"

subsection \<open>The rule sequence of a policy, in the specification's words\<close>

text \<open>
  One rule for an entry without ports; otherwise, for each port, one rule per protocol in
  \<open>{tcp, udp}\<close>.
\<close>

definition entryRules :: "string \<Rightarrow> string \<Rightarrow> NetworkRule \<Rightarrow> (ipVersion \<times> string list) list" where
  "entryRules chainName action rule =
     (let version = (case detectIPVersion (Cidr rule) of Inl err \<Rightarrow> ipv4 | Inr v \<Rightarrow> v) in
      if Ports rule = []
      then [(version, [''-A'', chainName, ''-d'', Cidr rule, ''-j'', action])]
      else concat (map (\<lambda>port.
             [(version, [''-A'', chainName, ''-d'', Cidr rule, ''-p'', ''tcp'',
                         ''--dport'', showNat (unat port), ''-j'', action]),
              (version, [''-A'', chainName, ''-d'', Cidr rule, ''-p'', ''udp'',
                         ''--dport'', showNat (unat port), ''-j'', action])])
           (Ports rule)))"

definition whitelistAccepts :: "string \<Rightarrow> NetworkPolicy \<Rightarrow> (ipVersion \<times> string list) list" where
  "whitelistAccepts chainName policy =
     (if Policy policy = ''deny'' \<and> PolicyWhitelist policy \<noteq> []
      then concat (map (entryRules chainName ''ACCEPT'') (PolicyWhitelist policy))
      else [])"

definition blacklistDrops :: "string \<Rightarrow> NetworkPolicy \<Rightarrow> (ipVersion \<times> string list) list" where
  "blacklistDrops chainName policy =
     (if Policy policy = ''allow'' \<and> PolicyBlacklist policy \<noteq> []
      then concat (map (entryRules chainName ''DROP'') (PolicyBlacklist policy))
      else [])"

definition defaultVerdict :: "string \<Rightarrow> NetworkPolicy \<Rightarrow> (ipVersion \<times> string list) list" where
  "defaultVerdict chainName policy =
     [(ipv4, [''-A'', chainName, ''-j'', if Policy policy = ''allow'' then ''ACCEPT'' else ''DROP'']),
      (ipv6, [''-A'', chainName, ''-j'', if Policy policy = ''allow'' then ''ACCEPT'' else ''DROP''])]"

text \<open>The rules before the whitelist: bridge isolation, metadata blocks, DNS.\<close>

definition isolationRules ::
  "string list \<Rightarrow> string \<Rightarrow> NetworkPolicy \<Rightarrow> (ipVersion \<times> string list) list" where
  "isolationRules bridgeSubnets chainName policy =
     concat (map (\<lambda>subnet.
               case detectIPVersion subnet of
                 Inl err \<Rightarrow> []
               | Inr version \<Rightarrow> [(version, [''-A'', chainName, ''-d'', subnet, ''-j'', ''DROP''])])
             bridgeSubnets)
     @ (if PolicyBlockMetadata policy
        then map (Pair ipv4) (ipv4Rules chainName (AllowDns policy))
             @ map (Pair ipv6) (ipv6Rules chainName)
        else [])
     @ (if AllowDns policy
        then dnsAnyServer chainName
             @ concat (map (\<lambda>dns.
                 case detectIPVersion dns of
                   Inl err \<Rightarrow> []
                 | Inr version \<Rightarrow>
                     [(version, [''-A'', chainName, ''-d'', dns, ''-p'', ''udp'',
                                 ''--dport'', ''53'', ''-j'', ''ACCEPT'']),
                      (version, [''-A'', chainName, ''-d'', dns, ''-p'', ''tcp'',
                                 ''--dport'', ''53'', ''-j'', ''ACCEPT''])])
               (DnsServers policy))
        else [])"

definition compiledRules ::
  "string list \<Rightarrow> string \<Rightarrow> NetworkPolicy \<Rightarrow> (ipVersion \<times> string list) list" where
  "compiledRules bridgeSubnets chainName policy =
     isolationRules bridgeSubnets chainName policy @ whitelistAccepts chainName policy
       @ blacklistDrops chainName policy @ defaultVerdict chainName policy"

definition succeeded :: "ipVersion \<times> string list \<Rightarrow> ipVersion \<times> string list \<times> bool" where
  "succeeded c = (fst c, snd c, True)"

definition ofVersion :: "ipVersion \<Rightarrow> ipVersion \<times> string list \<times> bool \<Rightarrow> bool" where
  "ofVersion v c \<longleftrightarrow> fst c = v"

section \<open>The host's packet filter\<close>

text \<open>
  A model of the kernel's filter table, for the properties that speak of the firewall's
  state.  A table is the list of its chains, each with the list of its rules; a rule is kept
  as the arguments it was added with (its specification, after the chain's name).  There
  is one table per address family.  The commands are the ones the package issues:
  \<open>-N\<close> creates a chain and fails if it exists or has the name of a built-in target; \<open>-X\<close> deletes a chain and fails if it
  does not exist, is built in, has rules or is the target of a rule; \<open>-F\<close> empties a chain
  and fails if it does not exist; \<open>-A\<close> appends and \<open>-I chain 1\<close> prepends a rule, failing
  if the chain or the rule's target chain does not exist; \<open>-D\<close> deletes the first rule equal
  to the given specification and fails if there is none.  A failed command leaves the table
  as it was.
\<close>

type_synonym nf_rule = "string list"
type_synonym nf_table = "(string \<times> nf_rule list) list"

record netfilter =
  filter4 :: nf_table
  filter6 :: nf_table

definition builtinChains :: "string list" where
  "builtinChains = [''INPUT'', ''FORWARD'', ''OUTPUT'']"

definition builtinTargets :: "string list" where
  "builtinTargets = [''ACCEPT'', ''DROP'', ''RETURN'']"

definition emptyTable :: nf_table where
  "emptyTable = map (\<lambda>c. (c, [])) builtinChains"

definition freshNetfilter :: netfilter where
  "freshNetfilter = \<lparr>filter4 = emptyTable, filter6 = emptyTable\<rparr>"

fun ruleTarget :: "nf_rule \<Rightarrow> string option" where
  "ruleTarget (x # y # rest) = (if x = ''-j'' then Some y else ruleTarget (y # rest))"
| "ruleTarget _ = None"

definition chainReferenced :: "nf_table \<Rightarrow> string \<Rightarrow> bool" where
  "chainReferenced t c = list_ex (\<lambda>(name, rules). list_ex (\<lambda>r. ruleTarget r = Some c) rules) t"

definition targetExists :: "nf_table \<Rightarrow> nf_rule \<Rightarrow> bool" where
  "targetExists t spec =
     (case ruleTarget spec of
        None \<Rightarrow> True
      | Some tg \<Rightarrow> tg \<in> set builtinTargets \<or> map_of t tg \<noteq> None)"

definition setRules :: "string \<Rightarrow> nf_rule list \<Rightarrow> nf_table \<Rightarrow> nf_table" where
  "setRules c rules t = map (\<lambda>(name, rs). if name = c then (name, rules) else (name, rs)) t"

definition table_exec :: "nf_table \<Rightarrow> string list \<Rightarrow> nf_table option" where
  "table_exec t args =
     (case args of
        [] \<Rightarrow> None
      | [opt] \<Rightarrow> None
      | opt # c # spec \<Rightarrow>
          (case map_of t c of
             None \<Rightarrow> (if opt = ''-N'' \<and> spec = [] \<and> c \<notin> set builtinTargets
                      then Some (t @ [(c, [])]) else None)
           | Some rules \<Rightarrow>
               if opt = ''-N'' then None
               else if opt = ''-X'' \<and> spec = [] then
                 (if c \<in> set builtinChains \<or> rules \<noteq> [] \<or> chainReferenced t c then None
                  else Some (filter (\<lambda>(name, rs). name \<noteq> c) t))
               else if opt = ''-F'' \<and> spec = [] then Some (setRules c [] t)
               else if opt = ''-A'' then
                 (if targetExists t spec then Some (setRules c (rules @ [spec]) t) else None)
               else if opt = ''-I'' \<and> spec \<noteq> [] \<and> hd spec = ''1'' then
                 (if targetExists t (tl spec) then Some (setRules c (tl spec # rules) t) else None)
               else if opt = ''-D'' then
                 (if spec \<in> set rules then Some (setRules c (remove1 spec rules) t) else None)
               else None))"

definition nf_exec :: "netfilter iptables_env" where
  "nf_exec version args w =
     (case version of
        ipv4 \<Rightarrow> (case table_exec (filter4 w) args of
                   None \<Rightarrow> (False, w)
                 | Some t \<Rightarrow> (True, w\<lparr>filter4 := t\<rparr>))
      | ipv6 \<Rightarrow> (case table_exec (filter6 w) args of
                   None \<Rightarrow> (False, w)
                 | Some t \<Rightarrow> (True, w\<lparr>filter6 := t\<rparr>)))"

text \<open>
  The invariant of a table under the Bastion's operations: every chain has one entry, no jump
  rule (\<open>-s address -j chain\<close>, the form \<open>SetupChain\<close> inserts) occurs twice in the
  \<open>FORWARD\<close> chain, and every rule's target chain exists.
\<close>

definition isJump :: "nf_rule \<Rightarrow> bool" where
  "isJump r \<longleftrightarrow> length r = 4 \<and> r ! 0 = ''-s'' \<and> r ! 2 = ''-j''"

definition table_inv :: "nf_table \<Rightarrow> bool" where
  "table_inv t \<longleftrightarrow>
     distinct (map fst t)
     \<and> (case map_of t ''FORWARD'' of
          None \<Rightarrow> True
        | Some rules \<Rightarrow> distinct (filter isJump rules))
     \<and> list_all (\<lambda>(name, rules). list_all (targetExists t) rules) t"

definition netfilter_inv :: "netfilter \<Rightarrow> bool" where
  "netfilter_inv w \<longleftrightarrow> table_inv (filter4 w) \<and> table_inv (filter6 w)"

text \<open>
  The states the Bastion's three operations reach from a packet filter that satisfies the
  invariant (a fresh one does), whatever their arguments and the bridge subnets.
\<close>

inductive bastion_reachable :: "netfilter \<Rightarrow> bool" where
  reach_start: "netfilter_inv w \<Longrightarrow> bastion_reachable w"
| reach_SetupChain: "bastion_reachable (env h) \<Longrightarrow>
          bastion_reachable (env (snd (SetupChain nf_exec chainName containerIP h)))"
| reach_ApplyRules: "bastion_reachable (env h) \<Longrightarrow>
          bastion_reachable (env (snd (ApplyRules nf_exec bridgeSubnets chainName policy h)))"
| reach_CleanupChain: "bastion_reachable (env h) \<Longrightarrow>
          bastion_reachable (env (snd (CleanupChain nf_exec chainName containerIP h)))"

subsection \<open>What a chain does to a packet\<close>

record packet =
  dst :: IP
  proto :: string
  dport :: nat

definition destMatches :: "string \<Rightarrow> IP \<Rightarrow> bool" where
  "destMatches a ip =
     (if CHR ''/'' \<in> set a
      then (case ParseCIDR a of None \<Rightarrow> False | Some n \<Rightarrow> Contains n ip)
      else ParseIP a \<noteq> [] \<and> IP_Equal (ParseIP a) ip)"

definition portMatches :: "string \<Rightarrow> nat \<Rightarrow> bool" where
  "portMatches ports p =
     (if CHR '':'' \<in> set ports
      then decimalValue (takeWhile (\<lambda>c. c \<noteq> CHR '':'') ports) \<le> p
           \<and> p \<le> decimalValue (tl (dropWhile (\<lambda>c. c \<noteq> CHR '':'') ports))
      else p = decimalValue ports)"

text \<open>Does a rule match a packet?  The options are the ones \<open>ApplyRules\<close> writes.\<close>

fun ruleMatches :: "nf_rule \<Rightarrow> packet \<Rightarrow> bool" where
  "ruleMatches (opt # arg # rest) p =
     (if opt = ''-d'' then destMatches arg (dst p) \<and> ruleMatches rest p
      else if opt = ''-p'' then proto p = arg \<and> ruleMatches rest p
      else if opt = ''--dport'' then portMatches arg (dport p) \<and> ruleMatches rest p
      else if opt = ''-j'' then ruleMatches rest p
      else False)"
| "ruleMatches [] p = True"
| "ruleMatches [opt] p = False"

text \<open>The target of the first rule of a chain that matches the packet.\<close>

fun chainVerdict :: "nf_rule list \<Rightarrow> packet \<Rightarrow> string option" where
  "chainVerdict [] p = None"
| "chainVerdict (r # rs) p = (if ruleMatches r p then ruleTarget r else chainVerdict rs p)"

section \<open>Bastion: the RPC server (\<open>pkg/service\<close>)\<close>

text \<open>
  The server's own state is the map from chain names to container IPs; the audit log is the
  list of the \<open>auditLog\<close> calls (operation, chain name, container ID, success).
\<close>

record Server =
  chainIPs :: "string \<rightharpoonup> string"
  audit :: "(string \<times> string \<times> string \<times> bool) list"

record SetupChainRequest =
  ChainName :: string
  ContainerIp :: string
  ContainerId :: string

record ChainResponse =
  Success :: bool
  Error :: "string option"

definition ValidationError_Error :: "ValidationError \<Rightarrow> string" where
  "ValidationError_Error e = Field e @ '': '' @ Message e"

fun iptables_error_Error :: "iptables_error \<Rightarrow> string" where
  "iptables_error_Error (CommandFailed ipv4 args) = ''iptables '' @ concat (map (\<lambda>a. a @ '' '') args) @ ''failed''"
| "iptables_error_Error (CommandFailed ipv6 args) = ''ip6tables '' @ concat (map (\<lambda>a. a @ '' '') args) @ ''failed''"
| "iptables_error_Error (InvalidIPAddress s) = ''invalid IP address: '' @ s"
| "iptables_error_Error (Validation e) = ValidationError_Error e"

definition auditLog :: "string \<Rightarrow> string \<Rightarrow> string \<Rightarrow> bool \<Rightarrow> Server \<Rightarrow> Server" where
  "auditLog operation chainName containerID success s =
     s\<lparr>audit := audit s @ [(operation, chainName, containerID, success)]\<rparr>"

definition Server_SetupChain ::
  "'w iptables_env \<Rightarrow> SetupChainRequest \<Rightarrow> Server \<times> 'w host
     \<Rightarrow> ChainResponse \<times> Server \<times> 'w host" where
  "Server_SetupChain exec req sh =
     (case sh of (s, h) \<Rightarrow>
      (case ValidateChainName (ChainName req) of
         Some err \<Rightarrow>
           (\<lparr>Success = False, Error = Some (ValidationError_Error err)\<rparr>,
            auditLog ''setup_chain'' (ChainName req) (ContainerId req) False s, h)
       | None \<Rightarrow>
           (case ValidateContainerIP (ContainerIp req) of
              Inl err \<Rightarrow>
                (\<lparr>Success = False, Error = Some (ValidationError_Error err)\<rparr>,
                 auditLog ''setup_chain'' (ChainName req) (ContainerId req) False s, h)
            | Inr containerIP \<Rightarrow>
                (case SetupChain exec (ChainName req) containerIP h of
                   (Some err, h1) \<Rightarrow>
                     (\<lparr>Success = False, Error = Some (iptables_error_Error err)\<rparr>,
                      auditLog ''setup_chain'' (ChainName req) (ContainerId req) False s, h1)
                 | (None, h1) \<Rightarrow>
                     (\<lparr>Success = True, Error = None\<rparr>,
                      auditLog ''setup_chain'' (ChainName req) (ContainerId req) True
                        (s\<lparr>chainIPs := (chainIPs s)(ChainName req \<mapsto> ContainerIp req)\<rparr>),
                      h1)))))"

section \<open>Properties of the chain-name derivation\<close>

lemma chainHexLoop_take:
  "length acc < 16 \<Longrightarrow> chainHexLoop acc s = take 16 (acc @ filter isHexRune s)"
proof (induction s arbitrary: acc)
  case Nil
  then show ?case by simp
next
  case (Cons ch rest)
  show ?case
  proof (cases "isHexRune ch")
    case False
    with Cons show ?thesis by simp
  next
    case True
    show ?thesis
    proof (cases "Suc (length acc) = 16")
      case True
      with \<open>isHexRune ch\<close> show ?thesis by simp
    next
      case False
      with Cons.prems have "length (acc @ [ch]) < 16" by simp
      from Cons.IH [OF this] False \<open>isHexRune ch\<close> show ?thesis by simp
    qed
  qed
qed

lemma GenerateChainName_eq:
  "GenerateChainName containerID = ''ISO-'' @ take 16 (filter isHexRune containerID)"
  by (simp add: GenerateChainName_def chainHexLoop_take)

lemma isLowerHex_imp_isHexRune: "isLowerHex ch \<Longrightarrow> isHexRune ch"
  by (auto simp: isLowerHex_def isHexRune_def)

text \<open>
  Claim C9 (as the code has it).  For every workload ID the derived chain name is
  \<open>ISO-\<close> followed by the first sixteen hex characters of the ID in their order, or by
  all of them when the ID has fewer; upper-case hex digits are kept as they are.  Its length
  is four plus the smaller of sixteen and the number of hex characters, hence never above
  the limit of 28.  The function has no error result: the name passes
  \<open>ValidateChainName\<close> exactly when the ID has at least sixteen hex characters and the
  first sixteen are lower-case.
\<close>

theorem C9_chain_name_derivation:
  "GenerateChainName containerID = ''ISO-'' @ take 16 (filter isHexRune containerID)
   \<and> length (GenerateChainName containerID) = 4 + min 16 (length (filter isHexRune containerID))
   \<and> length (GenerateChainName containerID) \<le> 28
   \<and> (ValidateChainName (GenerateChainName containerID) = None
        \<longleftrightarrow> (16 \<le> length (filter isHexRune containerID)
             \<and> list_all isLowerHex (take 16 (filter isHexRune containerID))))"
  by (auto simp: GenerateChainName_eq ValidateChainName_def chainNameRegex_MatchString_def
        min_def)

theorem C9_chain_name_derivation_witness:
  "GenerateChainName ''abc123def456789012345678'' = ''ISO-abc123def4567890''
   \<and> length (GenerateChainName ''abc123def456789012345678'') = 20
   \<and> ValidateChainName (GenerateChainName ''abc123def456789012345678'') = None"
  using C9_chain_name_derivation [of "''abc123def456789012345678''"]
  by (auto simp: isHexRune_def isLowerHex_def)

text \<open>
  The claim as written fails on the repository's own test inputs: the short ID
  \<open>abc123\<close> has six hex characters and yields the ten-character name \<open>ISO-abc123\<close>
  (no error is returned, and the name is not of the form \<open>ISO-\<close> plus sixteen digits), and
  an upper-case ID yields upper-case digits.
\<close>

theorem C9_short_id_counterexample:
  "length (filter isHexRune ''abc123'') < 16
   \<and> GenerateChainName ''abc123'' = ''ISO-abc123''
   \<and> length (GenerateChainName ''abc123'') = 10
   \<and> \<not> chainNameRegex_MatchString (GenerateChainName ''abc123'')
   \<and> GenerateChainName ''ABCDEF0123456789'' = ''ISO-ABCDEF0123456789''
   \<and> \<not> list_all isLowerHex (drop 4 (GenerateChainName ''ABCDEF0123456789''))"
  by (simp add: GenerateChainName_eq isHexRune_def isLowerHex_def chainNameRegex_MatchString_def)

section \<open>Facts about the \<open>net\<close> model\<close>

subsection \<open>Evaluation on closed terms\<close>

lemma mask_byte_eval:
  "NOT (drop_bit n (0xff :: byte)) =
     (if n = 0 then 0 else if n = 1 then 0x80 else if n = 2 then 0xC0 else if n = 3 then 0xE0
      else if n = 4 then 0xF0 else if n = 5 then 0xF8 else if n = 6 then 0xFC
      else if n = 7 then 0xFE else 0xFF)"
proof (cases "8 \<le> n")
  case True
  then have "drop_bit n (0xff :: byte) = 0"
    by (intro bit_word_eqI) (simp add: bit_simps)
  with True show ?thesis by simp
next
  case False
  then have "n \<in> {0, 1, 2, 3, 4, 5, 6, 7}" by auto
  then show ?thesis by (elim insertE emptyE) simp_all
qed

lemma CIDRMask_loop_unfold:
  "CIDRMask_loop n l =
     (if l = 0 then []
      else if n \<ge> 8 then 0xff # CIDRMask_loop (n - 8) (l - 1)
      else (if n = 0 then 0 else if n = 1 then 0x80 else if n = 2 then 0xC0
            else if n = 3 then 0xE0 else if n = 4 then 0xF0 else if n = 5 then 0xF8
            else if n = 6 then 0xFC else if n = 7 then 0xFE else 0xFF) # CIDRMask_loop 0 (l - 1))"
  by (cases l) (auto simp: mask_byte_eval)

lemma replicate_unfold: "replicate n x = (if n = 0 then [] else x # replicate (n - 1) x)"
  by (cases n) auto

lemmas net_eval = ParseCIDR_def ParseIP_def ParseAddr_def parseIPv4_def parseIPv4Fields_def
  parseIPv6_def parseIPv6_loop.simps isDigit_def digitVal_def isHexDigit_def hexVal_def
  hexGroup_def dtoi_def big_def CIDRMask_def CIDRMask_loop_unfold IP_Mask_def v4InV6Prefix_def
  allFF_def To4_def networkNumberAndMask_def Contains_def replicate_unfold Let_def
  IsLoopback_def IP_Equal_def IPv6loopback_def IsLinkLocalUnicast_def

subsection \<open>Parsed addresses and networks are well-formed\<close>


lemma parseIPv4Fields_loop_length:
  "parseIPv4Fields_loop v pos d flds a s = Some r \<Longrightarrow> length flds = pos \<Longrightarrow> pos \<le> 3
   \<Longrightarrow> length r = 4"
proof (induction s arbitrary: v pos d flds a)
  case Nil
  then show ?case by (auto split: if_splits)
next
  case (Cons c cs)
  show ?case
  proof (cases "isDigit c")
    case True
    with Cons.prems have "parseIPv4Fields_loop (v * 10 + digitVal c) pos (Suc d) flds False cs = Some r"
      by (simp split: if_splits)
    from Cons.IH [OF this Cons.prems(2,3)] show ?thesis .
  next
    case False
    with Cons.prems have dot: "c = CHR ''.''" and p: "pos \<noteq> 3"
      and rec: "parseIPv4Fields_loop 0 (Suc pos) 0 (flds @ [of_nat v]) True cs = Some r"
      by (simp_all split: if_splits)
    from p Cons.prems(3) have "Suc pos \<le> 3" by simp
    moreover from Cons.prems(2) have "length (flds @ [of_nat v]) = Suc pos" by simp
    ultimately show ?thesis using Cons.IH [OF rec] by blast
  qed
qed

lemma parseIPv4Fields_length: "parseIPv4Fields s = Some r \<Longrightarrow> length r = 4"
  unfolding parseIPv4Fields_def by (erule parseIPv4Fields_loop_length) simp_all

lemma parseIPv6_loop_length:
  "parseIPv6_loop ip e s = Some (ip', e', s') \<Longrightarrow> even (length ip) \<Longrightarrow> length ip \<le> 16
   \<Longrightarrow> even (length ip') \<and> length ip' \<le> 16"
proof (induction ip e s rule: parseIPv6_loop.induct)
  case (1 ip ellipsis s)
  note eq = "1.prems"(1) [unfolded parseIPv6_loop.simps [of ip ellipsis s]]
  from "1.prems"(2,3) have small: "length ip < 16 \<Longrightarrow> length ip + 2 \<le> 16"
    by (auto elim!: evenE)
  show ?case
  proof (cases "length ip < 16")
    case False
    with eq "1.prems" show ?thesis by simp
  next
    case lt: True
    let ?ip2 = "ip @ [of_nat (hexGroup (takeWhile isHexDigit s) div 256),
                    of_nat (hexGroup (takeWhile isHexDigit s))]"
    have len2: "even (length ?ip2)" "length ?ip2 \<le> 16"
      using "1.prems"(2) small [OF lt] by simp_all
    show ?thesis
    proof (cases "dropWhile isHexDigit s \<noteq> [] \<and> hd (dropWhile isHexDigit s) = CHR ''.''")
      case True
      with eq lt obtain f where f: "parseIPv4Fields s = Some f" and r: "ip' = ip @ f"
        and le: "length ip + 4 \<le> 16"
        by (auto split: if_splits option.splits)
      from parseIPv4Fields_length [OF f] r le "1.prems"(2) show ?thesis by simp
    next
      case nodot: False
      show ?thesis
      proof (cases "dropWhile isHexDigit s = []")
        case True
        with eq lt nodot have "ip' = ?ip2" by (auto split: if_splits)
        with len2 show ?thesis by simp
      next
        case ne: False
        show ?thesis
        proof (cases "hd (tl (dropWhile isHexDigit s)) = CHR '':''")
          case dbl: True
          show ?thesis
          proof (cases "tl (tl (dropWhile isHexDigit s)) = []")
            case True
            with eq lt nodot ne dbl have "ip' = ?ip2" by (auto split: if_splits)
            with len2 show ?thesis by simp
          next
            case False
            with eq lt nodot ne dbl have
              c: "\<not> 4 < length (takeWhile isHexDigit s)" "length (takeWhile isHexDigit s) \<noteq> 0"
                 "hd (dropWhile isHexDigit s) = CHR '':''" "length (dropWhile isHexDigit s) \<noteq> 1"
                 "ellipsis = None"
              and rec: "parseIPv6_loop ?ip2 (Some (length ip + 2)) (tl (tl (dropWhile isHexDigit s)))
                        = Some (ip', e', s')"
              by (auto split: if_splits)
            have "\<not> \<not> length ip < 16" using lt by simp
            from "1.IH"(1) [OF this c(1) c(2) nodot ne _ c(4) dbl _ False rec len2] c
            show ?thesis by simp
          qed
        next
          case sgl: False
          with eq lt nodot ne have
              c: "\<not> 4 < length (takeWhile isHexDigit s)" "length (takeWhile isHexDigit s) \<noteq> 0"
                 "hd (dropWhile isHexDigit s) = CHR '':''" "length (dropWhile isHexDigit s) \<noteq> 1"
              and rec: "parseIPv6_loop ?ip2 ellipsis (tl (dropWhile isHexDigit s))
                        = Some (ip', e', s')"
              by (auto split: if_splits)
          have "\<not> \<not> length ip < 16" using lt by simp
          from "1.IH"(2) [OF this c(1) c(2) nodot ne _ c(4) sgl rec len2] c
          show ?thesis by simp
        qed
      qed
    qed
  qed
qed



lemma parseIPv6_cases:
  "parseIPv6 s = Some a \<Longrightarrow>
     a = Addr6 (replicate 16 0)
     \<or> (\<exists>ip e rest e0 s1. parseIPv6_loop [] e0 s1 = Some (ip, e, rest)
          \<and> ((length ip < 16 \<and> (\<exists>k. a = Addr6 (take k ip @ replicate (16 - length ip) 0 @ drop k ip)))
             \<or> (\<not> length ip < 16 \<and> a = Addr6 ip)))"
  unfolding parseIPv6_def Let_def
  by (simp split: if_splits option.splits prod.splits) blast+

lemma parseIPv6_shape: "parseIPv6 s = Some a \<Longrightarrow> \<exists>b. a = Addr6 b \<and> length b = 16"
proof -
  assume "parseIPv6 s = Some a"
  from parseIPv6_cases [OF this] show ?thesis
  proof (elim disjE exE conjE)
    assume "a = Addr6 (replicate 16 0)"
    then show ?thesis by simp
  next
    fix ip e rest e0 s1 k
    assume "parseIPv6_loop [] e0 s1 = Some (ip, e, rest)" "length ip < 16"
      "a = Addr6 (take k ip @ replicate (16 - length ip) 0 @ drop k ip)"
    then show ?thesis by auto
  next
    fix ip e rest e0 s1
    assume l: "parseIPv6_loop [] e0 s1 = Some (ip, e, rest)" and "\<not> length ip < 16" "a = Addr6 ip"
    with parseIPv6_loop_length [OF l] show ?thesis by simp
  qed
qed

lemma ParseAddr_scan_shape:
  "ParseAddr_scan s t = Some a \<Longrightarrow>
     (\<exists>b. a = Addr4 b \<and> length b = 4) \<or> (\<exists>b. a = Addr6 b \<and> length b = 16)"
proof (induction t)
  case Nil
  then show ?case by simp
next
  case (Cons c cs)
  then show ?case
    by (auto simp: parseIPv4_def split: if_splits
        dest: parseIPv4Fields_length parseIPv6_shape)
qed

lemma ParseAddr_shape:
  "ParseAddr s = Some a \<Longrightarrow>
     (\<exists>b. a = Addr4 b \<and> length b = 4) \<or> (\<exists>b. a = Addr6 b \<and> length b = 16)"
  unfolding ParseAddr_def by (rule ParseAddr_scan_shape)

lemma ParseIP_length: "ParseIP s \<noteq> [] \<Longrightarrow> length (ParseIP s) = 16"
  by (auto simp: ParseIP_def v4InV6Prefix_def split: option.splits dest: ParseAddr_shape)

lemma length_CIDRMask_loop [simp]: "length (CIDRMask_loop n l) = l"
  by (induction l arbitrary: n) auto

lemma ParseCIDR_wf: "ParseCIDR s = Some n \<Longrightarrow> wf_net n"
proof -
  assume a: "ParseCIDR s = Some n"
  then obtain ipAddr k where p: "ParseAddr (takeWhile (\<lambda>c. c \<noteq> CHR ''/'') s) = Some ipAddr"
    and k: "k \<le> BitLen ipAddr"
    and n: "n = \<lparr>IP = IP_Mask (As16 ipAddr) (CIDRMask k (BitLen ipAddr)),
                Mask = CIDRMask k (BitLen ipAddr)\<rparr>"
    unfolding ParseCIDR_def
    by (simp split: if_splits option.splits prod.splits) (metis not_less)
  from ParseAddr_shape [OF p] show ?thesis
  proof (elim disjE exE conjE)
    fix b assume b: "ipAddr = Addr4 b" "length b = 4"
    with k n have "Mask n = CIDRMask_loop k 4" by (simp add: CIDRMask_def)
    moreover from b k n have "length (IP n) = 4"
      by (simp add: CIDRMask_def IP_Mask_def Let_def v4InV6Prefix_def)
    ultimately show ?thesis unfolding wf_net_def by blast
  next
    fix b assume b: "ipAddr = Addr6 b" "length b = 16"
    with k n have "Mask n = CIDRMask_loop k 16" by (simp add: CIDRMask_def)
    moreover from b k n have "length (IP n) = 16"
      by (simp add: CIDRMask_def IP_Mask_def Let_def)
    ultimately show ?thesis unfolding wf_net_def by blast
  qed
qed

lemma tl_CIDRMask_loop: "tl (CIDRMask_loop n (Suc l)) = CIDRMask_loop (n - 8) l"
  by simp

lemma drop_CIDRMask_loop: "drop j (CIDRMask_loop n (j + l)) = CIDRMask_loop (n - 8 * j) l"
proof (induction j arbitrary: n)
  case 0
  then show ?case by simp
next
  case (Suc j)
  have "drop (Suc j) (CIDRMask_loop n (Suc j + l)) = drop j (CIDRMask_loop (n - 8) (j + l))"
    by simp
  also have "\<dots> = CIDRMask_loop (n - 8 - 8 * j) l" by (rule Suc.IH)
  finally show ?case by (simp add: algebra_simps)
qed

lemma drop12_CIDRMask_loop: "drop 12 (CIDRMask_loop n 16) = CIDRMask_loop (n - 96) 4"
  using drop_CIDRMask_loop [of 12 n 4] by simp

lemma To4_length: "To4 ip \<noteq> [] \<Longrightarrow> length (To4 ip) = 4"
  by (auto simp: To4_def split: if_splits)

text \<open>The network number and mask of a well-formed network: same length, a prefix mask.\<close>

lemma wf_net_number:
  assumes "wf_net n"
  obtains a k where "networkNumberAndMask n = Some (a, CIDRMask_loop k (length a))"
    and "a = (if To4 (IP n) \<noteq> [] then To4 (IP n) else IP n)"
proof -
  from assms obtain k where k:
    "(length (IP n) = 4 \<and> Mask n = CIDRMask_loop k 4)
     \<or> (length (IP n) = 16 \<and> Mask n = CIDRMask_loop k 16)"
    unfolding wf_net_def by blast
  then show ?thesis
  proof
    assume "length (IP n) = 4 \<and> Mask n = CIDRMask_loop k 4"
    then have "networkNumberAndMask n = Some (IP n, CIDRMask_loop k (length (IP n)))"
      and "To4 (IP n) = IP n" and "IP n \<noteq> []"
      by (auto simp: networkNumberAndMask_def To4_def Let_def)
    then show ?thesis using that by simp
  next
    assume h: "length (IP n) = 16 \<and> Mask n = CIDRMask_loop k 16"
    show ?thesis
    proof (cases "To4 (IP n) = []")
      case True
      with h have "networkNumberAndMask n = Some (IP n, CIDRMask_loop k (length (IP n)))"
        by (simp add: networkNumberAndMask_def Let_def)
      with True show ?thesis using that by simp
    next
      case False
      from To4_length [OF False] h False
      have "networkNumberAndMask n = Some (To4 (IP n), CIDRMask_loop (k - 96) (length (To4 (IP n))))"
        by (simp add: networkNumberAndMask_def Let_def drop12_CIDRMask_loop)
      with False show ?thesis using that by simp
    qed
  qed
qed


subsection \<open>Prefix masks and overlap\<close>


lemma mask_byte_and:
  "a \<le> b \<Longrightarrow> NOT (drop_bit a (0xff :: byte)) AND NOT (drop_bit b (0xff :: byte))
     = NOT (drop_bit a (0xff :: byte))"
proof -
  assume le: "a \<le> b"
  have small: "j \<in> {0, 1, 2, 3, 4, 5, 6, 7} \<or> 8 \<le> j" for j :: nat by auto
  from small [of a] small [of b] show ?thesis
    using le unfolding mask_byte_eval [of a] mask_byte_eval [of b]
    by (elim disjE insertE emptyE) simp_all
qed

lemma byte_and_ff: "(x :: byte) AND 0xff = x"
proof -
  have "(0xff :: byte) = - 1" by simp
  then show ?thesis by (simp only: and.right_neutral)
qed

lemma CIDRMask_loop_and:
  "k1 \<le> k2 \<Longrightarrow> map2 (AND) (CIDRMask_loop k1 l) (CIDRMask_loop k2 l) = CIDRMask_loop k1 l"
proof (induction l arbitrary: k1 k2)
  case 0
  then show ?case by simp
next
  case (Suc l)
  have z: "map2 (AND) (CIDRMask_loop 0 l) (CIDRMask_loop j l) = CIDRMask_loop 0 l" for j
    by (rule Suc.IH) simp
  show ?case
  proof (cases "k1 \<ge> 8")
    case True
    with Suc.prems have "k2 \<ge> 8" "k1 - 8 \<le> k2 - 8" by simp_all
    with True Suc.IH [of "k1 - 8" "k2 - 8"] show ?thesis by simp
  next
    case False
    then show ?thesis
      using mask_byte_and [OF Suc.prems] z by (simp add: byte_and_ff)
  qed
qed

lemma and_mask_weaken:
  assumes len: "length a = l" "length x = l" "length m1 = l" "length m2 = l"
    and eq: "map2 (AND) a m2 = map2 (AND) x m2"
    and sub: "map2 (AND) m1 m2 = (m1 :: byte list)"
  shows "map2 (AND) a m1 = map2 (AND) x m1"
proof (rule nth_equalityI)
  show "length (map2 (AND) a m1) = length (map2 (AND) x m1)" using len by simp
next
  fix i assume "i < length (map2 (AND) a m1)"
  with len have i: "i < l" by simp
  from eq have "map2 (AND) a m2 ! i = map2 (AND) x m2 ! i" by simp
  with i len have e: "a ! i AND m2 ! i = x ! i AND m2 ! i" by simp
  from sub have "map2 (AND) m1 m2 ! i = m1 ! i" by simp
  with i len have s: "m1 ! i AND m2 ! i = m1 ! i" by simp
  have "a ! i AND m1 ! i = (a ! i AND m2 ! i) AND m1 ! i"
    using s by (metis and.assoc and.commute)
  also have "\<dots> = (x ! i AND m2 ! i) AND m1 ! i" using e by simp
  also have "\<dots> = x ! i AND m1 ! i"
    using s by (metis and.assoc and.commute)
  finally show "map2 (AND) a m1 ! i = map2 (AND) x m1 ! i" using i len by simp
qed

lemma Contains_wf:
  assumes "networkNumberAndMask n = Some (a, m)"
  shows "Contains n ip \<longleftrightarrow>
           length (if To4 ip \<noteq> [] then To4 ip else ip) = length a
           \<and> map2 (AND) a m = map2 (AND) (if To4 ip \<noteq> [] then To4 ip else ip) m"
  using assms by (auto simp: Contains_def Let_def)

text \<open>
  The test of \<open>networksOverlap\<close> (one network contains the other's first address) is exact
  on parsed networks: it holds if and only if the two networks share an address.
\<close>

lemma networksOverlap_iff_cidr_overlap:
  assumes w1: "wf_net n1" and w2: "wf_net n2"
  shows "networksOverlap n1 n2 \<longleftrightarrow> cidr_overlap n1 n2"
proof -
  from w1 obtain a1 k1 where n1: "networkNumberAndMask n1 = Some (a1, CIDRMask_loop k1 (length a1))"
    and a1: "a1 = (if To4 (IP n1) \<noteq> [] then To4 (IP n1) else IP n1)"
    by (rule wf_net_number)
  from w2 obtain a2 k2 where n2: "networkNumberAndMask n2 = Some (a2, CIDRMask_loop k2 (length a2))"
    and a2: "a2 = (if To4 (IP n2) \<noteq> [] then To4 (IP n2) else IP n2)"
    by (rule wf_net_number)
  have self1: "Contains n1 (IP n1)" using a1 by (simp add: Contains_wf [OF n1])
  have self2: "Contains n2 (IP n2)" using a2 by (simp add: Contains_wf [OF n2])
  show ?thesis
  proof
    assume "networksOverlap n1 n2"
    then show "cidr_overlap n1 n2"
      unfolding networksOverlap_def cidr_overlap_def using self1 self2 by blast
  next
    assume "cidr_overlap n1 n2"
    then obtain ip where c1: "Contains n1 ip" and c2: "Contains n2 ip"
      unfolding cidr_overlap_def by blast
    define x where "x = (if To4 ip \<noteq> [] then To4 ip else ip)"
    from c1 have l1: "length x = length a1"
      and e1: "map2 (AND) a1 (CIDRMask_loop k1 (length a1)) = map2 (AND) x (CIDRMask_loop k1 (length a1))"
      by (simp_all add: Contains_wf [OF n1] x_def)
    from c2 have l2: "length x = length a2"
      and e2: "map2 (AND) a2 (CIDRMask_loop k2 (length a2)) = map2 (AND) x (CIDRMask_loop k2 (length a2))"
      by (simp_all add: Contains_wf [OF n2] x_def)
    define l where "l = length x"
    have la: "length a1 = l" "length a2 = l" using l1 l2 l_def by simp_all
    show "networksOverlap n1 n2"
    proof (cases "k1 \<le> k2")
      case True
      have "map2 (AND) a2 (CIDRMask_loop k1 l) = map2 (AND) x (CIDRMask_loop k1 l)"
        by (rule and_mask_weaken [where ?m2.0 = "CIDRMask_loop k2 l" and l = l])
           (use la l_def e2 CIDRMask_loop_and [OF True] in simp_all)
      with e1 la have "map2 (AND) a1 (CIDRMask_loop k1 l) = map2 (AND) a2 (CIDRMask_loop k1 l)"
        by simp
      then have "Contains n1 (IP n2)" using a2 la by (simp add: Contains_wf [OF n1])
      then show ?thesis by (simp add: networksOverlap_def)
    next
      case False
      then have le: "k2 \<le> k1" by simp
      have "map2 (AND) a1 (CIDRMask_loop k2 l) = map2 (AND) x (CIDRMask_loop k2 l)"
        by (rule and_mask_weaken [where ?m2.0 = "CIDRMask_loop k1 l" and l = l])
           (use la l_def e1 CIDRMask_loop_and [OF le] in simp_all)
      with e2 la have "map2 (AND) a2 (CIDRMask_loop k2 l) = map2 (AND) a1 (CIDRMask_loop k2 l)"
        by simp
      then have "Contains n2 (IP n1)" using a1 la by (simp add: Contains_wf [OF n2])
      then show ?thesis by (simp add: networksOverlap_def)
    qed
  qed
qed



section \<open>Whitelist entries and the mandatory blocks (C1)\<close>

lemmas config_consts = LocalhostIPv4_def LocalhostIPv6_def CloudMetadata_def LinkLocal_def
  Private10_def Private172_def Private192_def Multicast_def Reserved240_def Broadcast_def
  ZeroConf_def MandatoryBlockedRanges_def PrivateRanges_def

lemma checkMandatoryBlocked_None_iff:
  "checkMandatoryBlocked cidr n bs = None \<longleftrightarrow>
     (\<forall>b \<in> set bs. \<forall>bn. ParseCIDR b = Some bn \<longrightarrow> \<not> networksOverlap n bn)"
  by (induction bs) (auto split: option.splits)

lemma validateWhitelist_None_iff:
  "validateWhitelist i wl = None \<longleftrightarrow> (\<forall>e \<in> set wl. ValidateWhitelistEntry e = None)"
  by (induction wl arbitrary: i) (auto split: option.splits)

lemma EnforceSecurityRules_fst:
  "fst (EnforceSecurityRules cfg) = validateWhitelist 0 (Whitelist cfg)"
  by (simp add: EnforceSecurityRules_def Let_def split: option.splits)

lemma EnforceSecurityRules_Whitelist:
  "Whitelist (snd (EnforceSecurityRules cfg)) = Whitelist cfg"
  by (simp add: EnforceSecurityRules_def Let_def split: option.splits)

lemma ValidateWhitelistEntry_overlap:
  assumes lit: "wl_CIDR e \<noteq> ''0.0.0.0/0''" "wl_CIDR e \<noteq> ''::/0''"
    and b: "b \<in> set MandatoryBlockedRanges"
    and pe: "ParseCIDR (wl_CIDR e) = Some n" and pb: "ParseCIDR b = Some bn"
    and ov: "cidr_overlap n bn"
  shows "ValidateWhitelistEntry e \<noteq> None"
proof -
  from ov have "networksOverlap n bn"
    by (simp add: networksOverlap_iff_cidr_overlap [OF ParseCIDR_wf [OF pe] ParseCIDR_wf [OF pb]])
  with b pb have "checkMandatoryBlocked (wl_CIDR e) n MandatoryBlockedRanges \<noteq> None"
    unfolding checkMandatoryBlocked_None_iff by blast
  with lit pe show ?thesis
    by (auto simp: ValidateWhitelistEntry_def)
qed

lemma ValidateWhitelistEntry_None_no_overlap:
  assumes ok: "ValidateWhitelistEntry e = None"
    and lit: "wl_CIDR e \<noteq> ''0.0.0.0/0''" "wl_CIDR e \<noteq> ''::/0''"
  shows "\<exists>n. ParseCIDR (wl_CIDR e) = Some n
           \<and> (\<forall>b \<in> set MandatoryBlockedRanges. \<forall>bn. ParseCIDR b = Some bn \<longrightarrow> \<not> cidr_overlap n bn)"
proof -
  from ok obtain n where pe: "ParseCIDR (wl_CIDR e) = Some n"
    by (auto simp: ValidateWhitelistEntry_def split: if_splits option.splits)
  with ok lit have "checkMandatoryBlocked (wl_CIDR e) n MandatoryBlockedRanges = None"
    by (auto simp: ValidateWhitelistEntry_def split: if_splits option.splits)
  then have "\<forall>b \<in> set MandatoryBlockedRanges. \<forall>bn. ParseCIDR b = Some bn \<longrightarrow> \<not> networksOverlap n bn"
    by (simp add: checkMandatoryBlocked_None_iff)
  then have "\<forall>b \<in> set MandatoryBlockedRanges. \<forall>bn. ParseCIDR b = Some bn \<longrightarrow> \<not> cidr_overlap n bn"
    using networksOverlap_iff_cidr_overlap [OF ParseCIDR_wf [OF pe] ParseCIDR_wf] by blast
  with pe show ?thesis by blast
qed

text \<open>
  Claim C1.  The mandatory-block set is the list of eight CIDRs.  If a whitelist entry whose
  text is neither \<open>0.0.0.0/0\<close> nor \<open>::/0\<close> overlaps (shares an address with) one of
  them, \<open>EnforceSecurityRules\<close> returns an error.  Whenever it succeeds it passes the
  whitelist through unchanged, and every entry other than the two literals parses and
  overlaps no mandatory-block CIDR.  (The two literals are let through although they overlap
  every block; see the counterexample below.)
\<close>

theorem C1_whitelist_mandatory_blocks:
  "MandatoryBlockedRanges =
     [''127.0.0.0/8'', ''::1/128'', ''169.254.169.254/32'', ''169.254.0.0/16'', ''224.0.0.0/4'',
      ''240.0.0.0/4'', ''255.255.255.255/32'', ''0.0.0.0/8'']
   \<and> (\<forall>e b n bn.
         e \<in> set (Whitelist cfg) \<and> wl_CIDR e \<noteq> ''0.0.0.0/0'' \<and> wl_CIDR e \<noteq> ''::/0''
         \<and> b \<in> set MandatoryBlockedRanges
         \<and> ParseCIDR (wl_CIDR e) = Some n \<and> ParseCIDR b = Some bn \<and> cidr_overlap n bn
         \<longrightarrow> fst (EnforceSecurityRules cfg) \<noteq> None)
   \<and> (fst (EnforceSecurityRules cfg) = None \<longrightarrow>
         Whitelist (snd (EnforceSecurityRules cfg)) = Whitelist cfg
         \<and> (\<forall>e \<in> set (Whitelist cfg).
               wl_CIDR e \<noteq> ''0.0.0.0/0'' \<and> wl_CIDR e \<noteq> ''::/0'' \<longrightarrow>
               (\<exists>n. ParseCIDR (wl_CIDR e) = Some n
                  \<and> (\<forall>b \<in> set MandatoryBlockedRanges. \<forall>bn.
                        ParseCIDR b = Some bn \<longrightarrow> \<not> cidr_overlap n bn))))"
proof (intro conjI allI impI ballI)
  show "MandatoryBlockedRanges =
     [''127.0.0.0/8'', ''::1/128'', ''169.254.169.254/32'', ''169.254.0.0/16'', ''224.0.0.0/4'',
      ''240.0.0.0/4'', ''255.255.255.255/32'', ''0.0.0.0/8'']"
    by (simp add: config_consts)
next
  fix e b n bn
  assume h: "e \<in> set (Whitelist cfg) \<and> wl_CIDR e \<noteq> ''0.0.0.0/0'' \<and> wl_CIDR e \<noteq> ''::/0''
         \<and> b \<in> set MandatoryBlockedRanges
         \<and> ParseCIDR (wl_CIDR e) = Some n \<and> ParseCIDR b = Some bn \<and> cidr_overlap n bn"
  then have "ValidateWhitelistEntry e \<noteq> None"
    using ValidateWhitelistEntry_overlap [of e b n bn] by blast
  moreover from h have "e \<in> set (Whitelist cfg)" by simp
  ultimately have "\<not> (\<forall>e \<in> set (Whitelist cfg). ValidateWhitelistEntry e = None)" by auto
  then show "fst (EnforceSecurityRules cfg) \<noteq> None"
    by (simp add: EnforceSecurityRules_fst validateWhitelist_None_iff)
next
  show "Whitelist (snd (EnforceSecurityRules cfg)) = Whitelist cfg"
    by (rule EnforceSecurityRules_Whitelist)
next
  fix e
  assume ok: "fst (EnforceSecurityRules cfg) = None" and e: "e \<in> set (Whitelist cfg)"
    and lit: "wl_CIDR e \<noteq> ''0.0.0.0/0'' \<and> wl_CIDR e \<noteq> ''::/0''"
  from ok have "\<forall>e \<in> set (Whitelist cfg). ValidateWhitelistEntry e = None"
    by (simp add: EnforceSecurityRules_fst validateWhitelist_None_iff)
  with e have "ValidateWhitelistEntry e = None" by blast
  with lit show "\<exists>n. ParseCIDR (wl_CIDR e) = Some n
                  \<and> (\<forall>b \<in> set MandatoryBlockedRanges. \<forall>bn.
                        ParseCIDR b = Some bn \<longrightarrow> \<not> cidr_overlap n bn)"
    using ValidateWhitelistEntry_None_no_overlap [of e] by blast
qed

lemma parse_loopback_net:
  "ParseCIDR ''127.0.0.0/8'' = Some \<lparr>IP = [127, 0, 0, 0], Mask = [255, 0, 0, 0]\<rparr>"
  by (simp add: net_eval)

lemma parse_default_route:
  "ParseCIDR ''0.0.0.0/0'' = Some \<lparr>IP = [0, 0, 0, 0], Mask = [0, 0, 0, 0]\<rparr>"
  by (simp add: net_eval)

lemma parse_loopback_host:
  "ParseCIDR ''127.0.0.1/32'' = Some \<lparr>IP = [127, 0, 0, 1], Mask = [255, 255, 255, 255]\<rparr>"
  by (simp add: net_eval)

lemma parse_public_dns:
  "ParseCIDR ''8.8.8.8/32'' = Some \<lparr>IP = [8, 8, 8, 8], Mask = [255, 255, 255, 255]\<rparr>"
  by (simp add: net_eval)

theorem C1_whitelist_mandatory_blocks_witness:
  "fst (EnforceSecurityRules
          \<lparr>Whitelist = [\<lparr>wl_CIDR = ''127.0.0.1/32'', wl_Description = ''test'', wl_Ports = []\<rparr>],
            Blacklist = [], DefaultPolicy = ''deny'', BlockMetadata = True, AllowDNS = False,
            DNSServers = [''8.8.8.8'']\<rparr>) \<noteq> None
   \<and> fst (EnforceSecurityRules
          \<lparr>Whitelist = [\<lparr>wl_CIDR = ''8.8.8.8/32'', wl_Description = ''test'', wl_Ports = []\<rparr>],
            Blacklist = [], DefaultPolicy = ''deny'', BlockMetadata = True, AllowDNS = False,
            DNSServers = [''8.8.8.8'']\<rparr>) = None
   \<and> \<not> cidr_overlap \<lparr>IP = [8, 8, 8, 8], Mask = [255, 255, 255, 255]\<rparr>
                      \<lparr>IP = [127, 0, 0, 0], Mask = [255, 0, 0, 0]\<rparr>"
proof -
  let ?bad = "\<lparr>Whitelist = [\<lparr>wl_CIDR = ''127.0.0.1/32'', wl_Description = ''test'', wl_Ports = []\<rparr>],
            Blacklist = [], DefaultPolicy = ''deny'', BlockMetadata = True, AllowDNS = False,
            DNSServers = [''8.8.8.8'']\<rparr>"
  let ?good = "\<lparr>Whitelist = [\<lparr>wl_CIDR = ''8.8.8.8/32'', wl_Description = ''test'', wl_Ports = []\<rparr>],
            Blacklist = [], DefaultPolicy = ''deny'', BlockMetadata = True, AllowDNS = False,
            DNSServers = [''8.8.8.8'']\<rparr>"
  have ov: "cidr_overlap \<lparr>IP = [127, 0, 0, 1], Mask = [255, 255, 255, 255]\<rparr>
                        \<lparr>IP = [127, 0, 0, 0], Mask = [255, 0, 0, 0]\<rparr>"
    unfolding cidr_overlap_def
    by (rule exI [of _ "[127, 0, 0, 1]"]) (simp add: net_eval)
  have mem: "''127.0.0.0/8'' \<in> set MandatoryBlockedRanges" by (simp add: config_consts)
  let ?e = "\<lparr>wl_CIDR = ''127.0.0.1/32'', wl_Description = ''test'', wl_Ports = []\<rparr>"
  have hyp: "?e \<in> set (Whitelist ?bad) \<and> wl_CIDR ?e \<noteq> ''0.0.0.0/0'' \<and> wl_CIDR ?e \<noteq> ''::/0''
         \<and> ''127.0.0.0/8'' \<in> set MandatoryBlockedRanges
         \<and> ParseCIDR (wl_CIDR ?e) = Some \<lparr>IP = [127, 0, 0, 1], Mask = [255, 255, 255, 255]\<rparr>
         \<and> ParseCIDR ''127.0.0.0/8'' = Some \<lparr>IP = [127, 0, 0, 0], Mask = [255, 0, 0, 0]\<rparr>
         \<and> cidr_overlap \<lparr>IP = [127, 0, 0, 1], Mask = [255, 255, 255, 255]\<rparr>
                        \<lparr>IP = [127, 0, 0, 0], Mask = [255, 0, 0, 0]\<rparr>"
    using ov mem parse_loopback_host parse_loopback_net by simp
  have bad: "fst (EnforceSecurityRules ?bad) \<noteq> None"
    using C1_whitelist_mandatory_blocks [of ?bad, THEN conjunct2, THEN conjunct1, rule_format, OF hyp] .
  have good: "fst (EnforceSecurityRules ?good) = None"
    by (simp add: EnforceSecurityRules_fst ValidateWhitelistEntry_def networksOverlap_def
        config_consts net_eval)
  let ?g = "\<lparr>wl_CIDR = ''8.8.8.8/32'', wl_Description = ''test'', wl_Ports = []\<rparr>"
  have g: "?g \<in> set (Whitelist ?good)" "wl_CIDR ?g \<noteq> ''0.0.0.0/0'' \<and> wl_CIDR ?g \<noteq> ''::/0''"
    by simp_all
  from C1_whitelist_mandatory_blocks [of ?good, THEN conjunct2, THEN conjunct2, rule_format,
      OF good, THEN conjunct2, rule_format, OF g]
  obtain n where n: "ParseCIDR (wl_CIDR ?g) = Some n"
    and no: "\<forall>b \<in> set MandatoryBlockedRanges. \<forall>bn. ParseCIDR b = Some bn \<longrightarrow> \<not> cidr_overlap n bn"
    by blast
  from n parse_public_dns have "n = \<lparr>IP = [8, 8, 8, 8], Mask = [255, 255, 255, 255]\<rparr>" by simp
  with no mem parse_loopback_net
  have "\<not> cidr_overlap \<lparr>IP = [8, 8, 8, 8], Mask = [255, 255, 255, 255]\<rparr>
                      \<lparr>IP = [127, 0, 0, 0], Mask = [255, 0, 0, 0]\<rparr>"
    by blast
  with bad good show ?thesis by blast
qed

text \<open>
  The second half of C1 as written has no exception: but a whitelist holding the literal
  \<open>0.0.0.0/0\<close> is accepted and passed through, and that entry overlaps the mandatory
  block \<open>127.0.0.0/8\<close>.
\<close>

theorem C1_default_route_counterexample:
  "fst (EnforceSecurityRules
          \<lparr>Whitelist = [\<lparr>wl_CIDR = ''0.0.0.0/0'', wl_Description = ''all'', wl_Ports = []\<rparr>],
            Blacklist = [], DefaultPolicy = ''deny'', BlockMetadata = True, AllowDNS = False,
            DNSServers = []\<rparr>) = None
   \<and> Whitelist (snd (EnforceSecurityRules
          \<lparr>Whitelist = [\<lparr>wl_CIDR = ''0.0.0.0/0'', wl_Description = ''all'', wl_Ports = []\<rparr>],
            Blacklist = [], DefaultPolicy = ''deny'', BlockMetadata = True, AllowDNS = False,
            DNSServers = []\<rparr>))
       = [\<lparr>wl_CIDR = ''0.0.0.0/0'', wl_Description = ''all'', wl_Ports = []\<rparr>]
   \<and> ''127.0.0.0/8'' \<in> set MandatoryBlockedRanges
   \<and> ParseCIDR ''0.0.0.0/0'' = Some \<lparr>IP = [0, 0, 0, 0], Mask = [0, 0, 0, 0]\<rparr>
   \<and> ParseCIDR ''127.0.0.0/8'' = Some \<lparr>IP = [127, 0, 0, 0], Mask = [255, 0, 0, 0]\<rparr>
   \<and> cidr_overlap \<lparr>IP = [0, 0, 0, 0], Mask = [0, 0, 0, 0]\<rparr>
                    \<lparr>IP = [127, 0, 0, 0], Mask = [255, 0, 0, 0]\<rparr>"
proof -
  have "cidr_overlap \<lparr>IP = [0, 0, 0, 0], Mask = [0, 0, 0, 0]\<rparr>
                    \<lparr>IP = [127, 0, 0, 0], Mask = [255, 0, 0, 0]\<rparr>"
    unfolding cidr_overlap_def
    by (rule exI [of _ "[127, 0, 0, 1]"]) (simp add: net_eval)
  moreover have "''127.0.0.0/8'' \<in> set MandatoryBlockedRanges" by (simp add: config_consts)
  ultimately show ?thesis
    by (simp add: EnforceSecurityRules_fst EnforceSecurityRules_Whitelist
        ValidateWhitelistEntry_def parse_default_route parse_loopback_net)
qed

section \<open>DNS servers and container addresses (C3, C10)\<close>

lemma byte_and_f0_iff: "(b :: byte) AND 0xf0 = 0x10 \<longleftrightarrow> 16 \<le> b \<and> b \<le> 31"
proof -
  let ?Q = "\<lambda>n. ((word_of_nat n :: byte) AND 240 = 16)
                  = (16 \<le> (word_of_nat n :: byte) \<and> (word_of_nat n :: byte) \<le> 31)"
  have rest: "list_all ?Q [2..<256]" by (simp add: upt_rec_numeral)
  have q0: "?Q 0" and q1: "?Q 1" by (simp_all add: word_le_nat_alt)
  have "unat b < 256" using unsigned_less [of b, where ?'a = nat] by simp
  then have "unat b = 0 \<or> unat b = 1 \<or> (2 \<le> unat b \<and> unat b < 256)" by arith
  then have "unat b = 0 \<or> unat b = 1 \<or> unat b \<in> set [2..<256]"
    by (simp only: set_upt atLeastLessThan_iff)
  moreover have "\<forall>n \<in> set [2..<256]. ?Q n" using rest by (simp only: list_all_iff)
  ultimately have "?Q (unat b)" using q0 q1 by metis
  then show ?thesis by simp
qed

text \<open>
  On a four-byte address the byte tests of \<open>isPrivateIP\<close> decide membership in
  \<open>10.0.0.0/8\<close>, \<open>172.16.0.0/12\<close> and \<open>192.168.0.0/16\<close>.
\<close>

lemma isPrivateIP_iff_rfc1918:
  "length ip = 4 \<Longrightarrow> isPrivateIP ip \<longleftrightarrow> in_rfc1918 ip"
proof -
  assume l: "length ip = 4"
  then obtain a b c d where ip: "ip = [a, b, c, d]"
    by (auto simp: eval_nat_numeral length_Suc_conv)
  show ?thesis
    unfolding ip
    by (simp add: isPrivateIP_def in_rfc1918_def rfc1918_def Contains_def networkNumberAndMask_def
        To4_def Let_def byte_and_ff byte_and_f0_iff)
qed

lemma ValidateContainerIP_iff:
  "isl (ValidateContainerIP s) \<longleftrightarrow>
     \<not> (To4 (ParseIP s) \<noteq> [] \<and> in_rfc1918 (To4 (ParseIP s)))"
proof (cases "To4 (ParseIP s) = []")
  case True
  then show ?thesis by (simp add: ValidateContainerIP_def)
next
  case False
  then have "length (To4 (ParseIP s)) = 4" by (rule To4_length)
  from isPrivateIP_iff_rfc1918 [OF this] False show ?thesis
    by (auto simp: ValidateContainerIP_def To4_def)
qed

text \<open>What \<open>ValidateDNSServer\<close> does guarantee for a server it accepts.\<close>

lemma ValidateDNSServer_accepted:
  assumes "ValidateDNSServer s = Inr ip"
  shows "ip = ParseIP s" and "ip \<noteq> []" and "\<not> IsLoopback ip"
    and "To4 ip \<noteq> [] \<Longrightarrow> \<not> IsLinkLocalUnicast ip"
    and "To4 ip \<noteq> [] \<Longrightarrow> s \<noteq> ''169.254.169.254'' \<and> s \<noteq> ''168.63.129.16'' \<and> s \<noteq> ''100.100.100.200''"
  using assms by (auto simp: ValidateDNSServer_def IsLinkLocalUnicast_def split: if_splits)

text \<open>
  Claim C3 fails on the code.  \<open>ValidateDNSServer\<close> makes its link-local and metadata
  tests only after \<open>ip.To4()\<close> has succeeded, and compares the metadata addresses as
  texts.  So the IPv6 link-local address \<open>fe80::1\<close> is accepted (it lies in \<open>fe80::/10\<close>,
  which \<open>ApplyRules\<close> itself drops as ``IPv6 link-local''), and the DNS loop of
  \<open>ApplyRules\<close> then adds accept rules for it; and \<open>::ffff:168.63.129.16\<close>, another
  text of the metadata address 168.63.129.16, is accepted as well.
\<close>

theorem C3_ipv6_link_local_dns_accepted:
  "ValidateDNSServer ''fe80::1'' = Inr [254, 128, 0, 0, 0, 0, 0, 0, 0, 0, 0, 0, 0, 0, 0, 1]
   \<and> IsLinkLocalUnicast [254, 128, 0, 0, 0, 0, 0, 0, 0, 0, 0, 0, 0, 0, 0, 1]
   \<and> destMatches ''fe80::/10'' [254, 128, 0, 0, 0, 0, 0, 0, 0, 0, 0, 0, 0, 0, 0, 1]
   \<and> dnsServers (\<lambda>version args w. (True, w)) ''ISO-0123456789abcdef'' [''fe80::1''] 0
        \<lparr>env = (), issued = []\<rparr>
      = ((2, None),
         \<lparr>env = (),
           issued =
             [(ipv6, [''-A'', ''ISO-0123456789abcdef'', ''-d'', ''fe80::1'', ''-p'', ''udp'',
                      ''--dport'', ''53'', ''-j'', ''ACCEPT''], True),
              (ipv6, [''-A'', ''ISO-0123456789abcdef'', ''-d'', ''fe80::1'', ''-p'', ''tcp'',
                      ''--dport'', ''53'', ''-j'', ''ACCEPT''], True)]\<rparr>)
   \<and> ValidateDNSServer ''::ffff:168.63.129.16''
      = Inr [0, 0, 0, 0, 0, 0, 0, 0, 0, 0, 255, 255, 168, 63, 129, 16]
   \<and> IP_Equal [0, 0, 0, 0, 0, 0, 0, 0, 0, 0, 255, 255, 168, 63, 129, 16] [168, 63, 129, 16]
   \<and> [168, 63, 129, 16] \<in> set metadata_triplet"
proof -
  have v: "ValidateDNSServer ''fe80::1'' = Inr [254, 128, 0, 0, 0, 0, 0, 0, 0, 0, 0, 0, 0, 0, 0, 1]"
    by (simp add: ValidateDNSServer_def net_eval)
  have d: "detectIPVersion ''fe80::1'' = Inr ipv6"
    by (simp add: detectIPVersion_def net_eval)
  have "dnsServers (\<lambda>version args w. (True, w)) ''ISO-0123456789abcdef'' [''fe80::1''] 0
        \<lparr>env = (), issued = []\<rparr>
      = ((2, None),
         \<lparr>env = (),
           issued =
             [(ipv6, [''-A'', ''ISO-0123456789abcdef'', ''-d'', ''fe80::1'', ''-p'', ''udp'',
                      ''--dport'', ''53'', ''-j'', ''ACCEPT''], True),
              (ipv6, [''-A'', ''ISO-0123456789abcdef'', ''-d'', ''fe80::1'', ''-p'', ''tcp'',
                      ''--dport'', ''53'', ''-j'', ''ACCEPT''], True)]\<rparr>)"
    by (simp add: v d andThen_def runIPTablesForVersion_def runIP6Tables_def)
  moreover have "IsLinkLocalUnicast [254, 128, 0, 0, 0, 0, 0, 0, 0, 0, 0, 0, 0, 0, 0, 1]"
    by (simp add: net_eval)
  moreover have "destMatches ''fe80::/10'' [254, 128, 0, 0, 0, 0, 0, 0, 0, 0, 0, 0, 0, 0, 0, 1]"
    by (simp add: destMatches_def net_eval)
  moreover have "ValidateDNSServer ''::ffff:168.63.129.16''
      = Inr [0, 0, 0, 0, 0, 0, 0, 0, 0, 0, 255, 255, 168, 63, 129, 16]"
    by (simp add: ValidateDNSServer_def net_eval)
  moreover have "IP_Equal [0, 0, 0, 0, 0, 0, 0, 0, 0, 0, 255, 255, 168, 63, 129, 16]
                   [168, 63, 129, 16]"
    by (simp add: net_eval)
  moreover have "[168, 63, 129, 16] \<in> set metadata_triplet"
    by (simp add: metadata_triplet_def)
  ultimately show ?thesis using v by simp
qed



section \<open>The rules \<open>ApplyRules\<close> appends (C4)\<close>

lemma runIPTablesForVersion_issued:
  "runIPTablesForVersion exec v args h = (r, h') \<Longrightarrow>
     issued h' = issued h @ [(v, args, r = None)]"
  by (cases v)
     (auto simp: runIPTablesForVersion_def runIPTables_def runIP6Tables_def split: prod.splits if_splits)

lemma andThen_ok:
  "andThen r f = ((m, None), h') \<Longrightarrow> \<exists>n h1. r = ((n, None), h1) \<and> f n h1 = ((m, None), h')"
  by (cases r) (auto simp: andThen_def split: option.splits prod.splits)

lemma runRules_ok:
  "runRules exec cs n h = ((m, None), h') \<Longrightarrow>
     issued h' = issued h @ map succeeded cs \<and> m = n + length cs"
proof (induction cs arbitrary: n h)
  case Nil
  then show ?case by simp
next
  case (Cons c cs)
  obtain v args where c: "c = (v, args)" by (cases c)
  from Cons.prems c obtain h1 where
    one: "runIPTablesForVersion exec v args h = (None, h1)"
    and rest: "runRules exec cs (Suc n) h1 = ((m, None), h')"
    by (auto split: prod.splits option.splits)
  from runIPTablesForVersion_issued [OF one] Cons.IH [OF rest] c show ?case
    by (simp add: succeeded_def)
qed

lemma bridgeDrops_ok:
  "bridgeDrops exec chainName subnets n h = ((m, None), h') \<Longrightarrow>
     issued h' = issued h @ map succeeded
        (concat (map (\<lambda>subnet.
               case detectIPVersion subnet of
                 Inl err \<Rightarrow> []
               | Inr version \<Rightarrow> [(version, [''-A'', chainName, ''-d'', subnet, ''-j'', ''DROP''])])
             subnets))
     \<and> m = n + length (concat (map (\<lambda>subnet.
               case detectIPVersion subnet of
                 Inl err \<Rightarrow> []
               | Inr version \<Rightarrow> [(version, [''-A'', chainName, ''-d'', subnet, ''-j'', ''DROP''])])
             subnets))"
proof (induction subnets arbitrary: n h)
  case Nil
  then show ?case by simp
next
  case (Cons subnet rest)
  show ?case
  proof (cases "detectIPVersion subnet")
    case (Inl err)
    with Cons.prems have "bridgeDrops exec chainName rest n h = ((m, None), h')" by simp
    from Cons.IH [OF this] Inl show ?thesis by simp
  next
    case (Inr version)
    with Cons.prems obtain h1 where
      one: "runIPTablesForVersion exec version [''-A'', chainName, ''-d'', subnet, ''-j'', ''DROP''] h
            = (None, h1)"
      and more: "bridgeDrops exec chainName rest (Suc n) h1 = ((m, None), h')"
      by (auto split: prod.splits option.splits)
    from runIPTablesForVersion_issued [OF one] Cons.IH [OF more] Inr show ?thesis
      by (simp add: succeeded_def)
  qed
qed

lemma metadataBlocks_ok:
  assumes "metadataBlocks exec chainName policy n h = ((m, None), h')"
  shows "issued h' = issued h @ map succeeded
           (if PolicyBlockMetadata policy
            then map (Pair ipv4) (ipv4Rules chainName (AllowDns policy))
                 @ map (Pair ipv6) (ipv6Rules chainName)
            else [])
         \<and> m = n + length (if PolicyBlockMetadata policy
            then map (Pair ipv4) (ipv4Rules chainName (AllowDns policy))
                 @ map (Pair ipv6) (ipv6Rules chainName)
            else [])"
proof (cases "PolicyBlockMetadata policy")
  case False
  with assms show ?thesis by (simp add: metadataBlocks_def)
next
  case True
  with assms have "andThen (runRules exec (map (Pair ipv4) (ipv4Rules chainName (AllowDns policy))) n h)
             (runRules exec (map (Pair ipv6) (ipv6Rules chainName))) = ((m, None), h')"
    by (simp add: metadataBlocks_def)
  from andThen_ok [OF this] obtain n1 h1 where
    a: "runRules exec (map (Pair ipv4) (ipv4Rules chainName (AllowDns policy))) n h = ((n1, None), h1)"
    and b: "runRules exec (map (Pair ipv6) (ipv6Rules chainName)) n1 h1 = ((m, None), h')"
    by blast
  from runRules_ok [OF a] runRules_ok [OF b] True show ?thesis by simp
qed

lemma dnsServers_ok:
  "dnsServers exec chainName servers n h = ((m, None), h') \<Longrightarrow>
     issued h' = issued h @ map succeeded
        (concat (map (\<lambda>dns.
                 case detectIPVersion dns of
                   Inl err \<Rightarrow> []
                 | Inr version \<Rightarrow>
                     [(version, [''-A'', chainName, ''-d'', dns, ''-p'', ''udp'',
                                 ''--dport'', ''53'', ''-j'', ''ACCEPT'']),
                      (version, [''-A'', chainName, ''-d'', dns, ''-p'', ''tcp'',
                                 ''--dport'', ''53'', ''-j'', ''ACCEPT''])])
               servers))
     \<and> m = n + length (concat (map (\<lambda>dns.
                 case detectIPVersion dns of
                   Inl err \<Rightarrow> []
                 | Inr version \<Rightarrow>
                     [(version, [''-A'', chainName, ''-d'', dns, ''-p'', ''udp'',
                                 ''--dport'', ''53'', ''-j'', ''ACCEPT'']),
                      (version, [''-A'', chainName, ''-d'', dns, ''-p'', ''tcp'',
                                 ''--dport'', ''53'', ''-j'', ''ACCEPT''])])
               servers))
     \<and> list_all (\<lambda>dns. \<not> isl (ValidateDNSServer dns)) servers"
proof (induction servers arbitrary: n h)
  case Nil
  then show ?case by simp
next
  case (Cons dns rest)
  from Cons.prems obtain ip version where
    v: "ValidateDNSServer dns = Inr ip" and d: "detectIPVersion dns = Inr version"
    and run: "andThen
                 (runRules exec
                    (map (\<lambda>proto. (version, [''-A'', chainName, ''-d'', dns, ''-p'', proto,
                                             ''--dport'', ''53'', ''-j'', ''ACCEPT'']))
                       [''udp'', ''tcp'']) n h)
                 (dnsServers exec chainName rest) = ((m, None), h')"
    by (auto split: sum.splits)
  from andThen_ok [OF run] obtain n1 h1 where
    a: "runRules exec
                    (map (\<lambda>proto. (version, [''-A'', chainName, ''-d'', dns, ''-p'', proto,
                                             ''--dport'', ''53'', ''-j'', ''ACCEPT'']))
                       [''udp'', ''tcp'']) n h = ((n1, None), h1)"
    and b: "dnsServers exec chainName rest n1 h1 = ((m, None), h')"
    by blast
  from runRules_ok [OF a] Cons.IH [OF b] v d show ?case by simp
qed

lemma dnsRules_ok:
  assumes "dnsRules exec chainName policy n h = ((m, None), h')"
  shows "issued h' = issued h @ map succeeded
           (if AllowDns policy
        then dnsAnyServer chainName
             @ concat (map (\<lambda>dns.
                 case detectIPVersion dns of
                   Inl err \<Rightarrow> []
                 | Inr version \<Rightarrow>
                     [(version, [''-A'', chainName, ''-d'', dns, ''-p'', ''udp'',
                                 ''--dport'', ''53'', ''-j'', ''ACCEPT'']),
                      (version, [''-A'', chainName, ''-d'', dns, ''-p'', ''tcp'',
                                 ''--dport'', ''53'', ''-j'', ''ACCEPT''])])
               (DnsServers policy))
        else [])
     \<and> m = n + length (if AllowDns policy
        then dnsAnyServer chainName
             @ concat (map (\<lambda>dns.
                 case detectIPVersion dns of
                   Inl err \<Rightarrow> []
                 | Inr version \<Rightarrow>
                     [(version, [''-A'', chainName, ''-d'', dns, ''-p'', ''udp'',
                                 ''--dport'', ''53'', ''-j'', ''ACCEPT'']),
                      (version, [''-A'', chainName, ''-d'', dns, ''-p'', ''tcp'',
                                 ''--dport'', ''53'', ''-j'', ''ACCEPT''])])
               (DnsServers policy))
        else [])"
proof (cases "AllowDns policy")
  case False
  with assms show ?thesis by (simp add: dnsRules_def)
next
  case True
  with assms have "andThen (runRules exec (dnsAnyServer chainName) n h)
             (dnsServers exec chainName (DnsServers policy)) = ((m, None), h')"
    by (simp add: dnsRules_def)
  from andThen_ok [OF this] obtain n1 h1 where
    a: "runRules exec (dnsAnyServer chainName) n h = ((n1, None), h1)"
    and b: "dnsServers exec chainName (DnsServers policy) n1 h1 = ((m, None), h')"
    by blast
  from runRules_ok [OF a] dnsServers_ok [OF b] True show ?thesis by simp
qed

lemma portRules_ok:
  "portRules exec version chainName cidr action ports n h = ((m, None), h') \<Longrightarrow>
     issued h' = issued h @ map succeeded
        (concat (map (\<lambda>port.
             [(version, [''-A'', chainName, ''-d'', cidr, ''-p'', ''tcp'',
                         ''--dport'', showNat (unat port), ''-j'', action]),
              (version, [''-A'', chainName, ''-d'', cidr, ''-p'', ''udp'',
                         ''--dport'', showNat (unat port), ''-j'', action])]) ports))
     \<and> m = n + 2 * length ports"
proof (induction ports arbitrary: n h)
  case Nil
  then show ?case by simp
next
  case (Cons port rest)
  from Cons.prems have run: "andThen
            (runRules exec
               (map (\<lambda>proto. (version, [''-A'', chainName, ''-d'', cidr, ''-p'', proto,
                                        ''--dport'', showNat (unat port), ''-j'', action]))
                  [''tcp'', ''udp'']) n h)
            (portRules exec version chainName cidr action rest) = ((m, None), h')"
    by (auto split: option.splits)
  from andThen_ok [OF run] obtain n1 h1 where
    a: "runRules exec
               (map (\<lambda>proto. (version, [''-A'', chainName, ''-d'', cidr, ''-p'', proto,
                                        ''--dport'', showNat (unat port), ''-j'', action]))
                  [''tcp'', ''udp'']) n h = ((n1, None), h1)"
    and b: "portRules exec version chainName cidr action rest n1 h1 = ((m, None), h')"
    by blast
  from runRules_ok [OF a] Cons.IH [OF b] show ?case by simp
qed

lemma applyNetworkRule_ok:
  assumes "applyNetworkRule exec chainName rule action h = ((cnt, None), h')"
  shows "issued h' = issued h @ map succeeded (entryRules chainName action rule)
         \<and> cnt = length (entryRules chainName action rule)"
proof -
  from assms obtain ipNet version where
    v: "ValidateCIDR (Cidr rule) = Inr ipNet" and d: "detectIPVersion (Cidr rule) = Inr version"
    by (auto simp: applyNetworkRule_def split: sum.splits)
  show ?thesis
  proof (cases "Ports rule = []")
    case True
    with assms v d have
      "runRules exec [(version, [''-A'', chainName, ''-d'', Cidr rule, ''-j'', action])] 0 h
       = ((cnt, None), h')"
      by (simp add: applyNetworkRule_def)
    from runRules_ok [OF this] True d show ?thesis by (simp add: entryRules_def)
  next
    case False
    with assms v d have
      "portRules exec version chainName (Cidr rule) action (Ports rule) 0 h = ((cnt, None), h')"
      by (simp add: applyNetworkRule_def)
    from portRules_ok [OF this] False d show ?thesis
      by (simp add: entryRules_def length_concat comp_def sum_list_triv)
  qed
qed

lemma networkRules_ok:
  "networkRules exec chainName action rs n h = ((m, None), h') \<Longrightarrow>
     issued h' = issued h @ map succeeded (concat (map (entryRules chainName action) rs))
     \<and> m = n + length (concat (map (entryRules chainName action) rs))"
proof (induction rs arbitrary: n h)
  case Nil
  then show ?case by simp
next
  case (Cons rule rest)
  from Cons.prems obtain cnt h1 where
    a: "applyNetworkRule exec chainName rule action h = ((cnt, None), h1)"
    and b: "networkRules exec chainName action rest (n + cnt) h1 = ((m, None), h')"
    by (auto split: prod.splits option.splits)
  from applyNetworkRule_ok [OF a] Cons.IH [OF b] show ?case by simp
qed

lemma ApplyRules_ok:
  assumes run: "ApplyRules exec bridgeSubnets chainName policy h = ((cnt, None), h')"
  shows "(Policy policy = ''allow'' \<or> Policy policy = ''deny'')
         \<and> issued h' = issued h @ map succeeded (compiledRules bridgeSubnets chainName policy)
         \<and> cnt = length (compiledRules bridgeSubnets chainName policy)"
proof -
  from run have mode: "Policy policy = ''allow'' \<or> Policy policy = ''deny''"
    by (auto simp: ApplyRules_def ValidatePolicyMode_def split: option.splits if_splits)
  then have vm: "ValidatePolicyMode (Policy policy) = None"
    by (auto simp: ValidatePolicyMode_def)
  let ?wl = "\<lambda>n h1. if Policy policy = ''deny'' \<and> length (PolicyWhitelist policy) > 0
                     then networkRules exec chainName ''ACCEPT'' (PolicyWhitelist policy) n h1
                     else ((n, None), h1)"
  let ?bl = "\<lambda>n h1. if Policy policy = ''allow'' \<and> length (PolicyBlacklist policy) > 0
                     then networkRules exec chainName ''DROP'' (PolicyBlacklist policy) n h1
                     else ((n, None), h1)"
  let ?fin = "[(ipv4, [''-A'', chainName, ''-j'',
                        if Policy policy = ''deny'' then ''DROP'' else ''ACCEPT'']),
                (ipv6, [''-A'', chainName, ''-j'',
                        if Policy policy = ''deny'' then ''DROP'' else ''ACCEPT''])]"
  from run vm have
    "andThen (andThen (andThen (andThen (andThen
            (bridgeDrops exec chainName bridgeSubnets 0 h)
            (metadataBlocks exec chainName policy))
            (dnsRules exec chainName policy)) ?wl) ?bl)
            (runRules exec ?fin) = ((cnt, None), h')"
    by (simp add: ApplyRules_def)
  from andThen_ok [OF this] obtain n5 h5 where
    s5: "andThen (andThen (andThen (andThen
            (bridgeDrops exec chainName bridgeSubnets 0 h)
            (metadataBlocks exec chainName policy))
            (dnsRules exec chainName policy)) ?wl) ?bl = ((n5, None), h5)"
    and f: "runRules exec ?fin n5 h5 = ((cnt, None), h')" by blast
  from andThen_ok [OF s5] obtain n4 h4 where
    s4: "andThen (andThen (andThen
            (bridgeDrops exec chainName bridgeSubnets 0 h)
            (metadataBlocks exec chainName policy))
            (dnsRules exec chainName policy)) ?wl = ((n4, None), h4)"
    and b: "?bl n4 h4 = ((n5, None), h5)" by blast
  from andThen_ok [OF s4] obtain n3 h3 where
    s3: "andThen (andThen
            (bridgeDrops exec chainName bridgeSubnets 0 h)
            (metadataBlocks exec chainName policy))
            (dnsRules exec chainName policy) = ((n3, None), h3)"
    and w: "?wl n3 h3 = ((n4, None), h4)" by blast
  from andThen_ok [OF s3] obtain n2 h2 where
    s2: "andThen (bridgeDrops exec chainName bridgeSubnets 0 h)
            (metadataBlocks exec chainName policy) = ((n2, None), h2)"
    and d: "dnsRules exec chainName policy n2 h2 = ((n3, None), h3)" by blast
  from andThen_ok [OF s2] obtain n1 h1 where
    s1: "bridgeDrops exec chainName bridgeSubnets 0 h = ((n1, None), h1)"
    and md: "metadataBlocks exec chainName policy n1 h1 = ((n2, None), h2)" by blast
  have wl: "issued h4 = issued h3 @ map succeeded (whitelistAccepts chainName policy)
            \<and> n4 = n3 + length (whitelistAccepts chainName policy)"
  proof (cases "Policy policy = ''deny'' \<and> PolicyWhitelist policy \<noteq> []")
    case True
    with w have "networkRules exec chainName ''ACCEPT'' (PolicyWhitelist policy) n3 h3
                 = ((n4, None), h4)" by simp
    from networkRules_ok [OF this] True show ?thesis by (simp add: whitelistAccepts_def)
  next
    case False
    with w show ?thesis by (auto simp: whitelistAccepts_def)
  qed
  have bl: "issued h5 = issued h4 @ map succeeded (blacklistDrops chainName policy)
            \<and> n5 = n4 + length (blacklistDrops chainName policy)"
  proof (cases "Policy policy = ''allow'' \<and> PolicyBlacklist policy \<noteq> []")
    case True
    with b have "networkRules exec chainName ''DROP'' (PolicyBlacklist policy) n4 h4
                 = ((n5, None), h5)" by simp
    from networkRules_ok [OF this] True show ?thesis by (simp add: blacklistDrops_def)
  next
    case False
    with b show ?thesis by (auto simp: blacklistDrops_def)
  qed
  have fin: "?fin = defaultVerdict chainName policy"
    using mode by (auto simp: defaultVerdict_def)
  from bridgeDrops_ok [OF s1] metadataBlocks_ok [OF md] dnsRules_ok [OF d] wl bl
    runRules_ok [OF f] fin mode
  show ?thesis
    by (simp add: compiledRules_def isolationRules_def)
qed



lemma last_filter_defaultVerdict:
  "last (filter (ofVersion ipv4) (xs @ map succeeded (ys @ defaultVerdict chainName policy)))
     = (ipv4, [''-A'', chainName, ''-j'', if Policy policy = ''allow'' then ''ACCEPT'' else ''DROP''], True)
   \<and> last (filter (ofVersion ipv6) (xs @ map succeeded (ys @ defaultVerdict chainName policy)))
     = (ipv6, [''-A'', chainName, ''-j'', if Policy policy = ''allow'' then ''ACCEPT'' else ''DROP''], True)"
  by (simp add: defaultVerdict_def succeeded_def ofVersion_def)

text \<open>
  Claim C4, for the runs of \<open>ApplyRules\<close> that return without error.  The mode is then
  \<open>allow\<close> or \<open>deny\<close>; the commands issued by the run all succeeded and are, in this
  order, the isolation rules (bridge, metadata, DNS), the whitelist accepts, the blacklist
  drops and the default verdict of both families.  The whitelist accepts are there only under
  \<open>deny\<close> with a non-empty whitelist, the blacklist drops only under \<open>allow\<close> with a
  non-empty blacklist (\<open>whitelistAccepts\<close>, \<open>blacklistDrops\<close>), one rule for an entry
  without ports and one per port and protocol otherwise (\<open>entryRules\<close>).  The last command
  of each family is the default verdict, and the count returned is the number of commands.
\<close>

theorem C4_ApplyRules_rule_sequence:
  assumes run: "ApplyRules exec bridgeSubnets chainName policy h = ((cnt, None), h')"
  shows "(Policy policy = ''allow'' \<or> Policy policy = ''deny'')
     \<and> issued h' = issued h @ map succeeded
          (isolationRules bridgeSubnets chainName policy @ whitelistAccepts chainName policy
           @ blacklistDrops chainName policy @ defaultVerdict chainName policy)
     \<and> cnt = length
          (isolationRules bridgeSubnets chainName policy @ whitelistAccepts chainName policy
           @ blacklistDrops chainName policy @ defaultVerdict chainName policy)
     \<and> last (filter (ofVersion ipv4) (issued h'))
         = (ipv4, [''-A'', chainName, ''-j'',
                   if Policy policy = ''allow'' then ''ACCEPT'' else ''DROP''], True)
     \<and> last (filter (ofVersion ipv6) (issued h'))
         = (ipv6, [''-A'', chainName, ''-j'',
                   if Policy policy = ''allow'' then ''ACCEPT'' else ''DROP''], True)"
proof -
  from ApplyRules_ok [OF run] have mode: "Policy policy = ''allow'' \<or> Policy policy = ''deny''"
    and iss: "issued h' = issued h @ map succeeded
          (isolationRules bridgeSubnets chainName policy @ whitelistAccepts chainName policy
           @ blacklistDrops chainName policy @ defaultVerdict chainName policy)"
    and cnt: "cnt = length
          (isolationRules bridgeSubnets chainName policy @ whitelistAccepts chainName policy
           @ blacklistDrops chainName policy @ defaultVerdict chainName policy)"
    by (simp_all add: compiledRules_def)
  have "issued h' = issued h @ map succeeded
          ((isolationRules bridgeSubnets chainName policy @ whitelistAccepts chainName policy
           @ blacklistDrops chainName policy) @ defaultVerdict chainName policy)"
    using iss by simp
  then have l: "last (filter (ofVersion ipv4) (issued h'))
         = (ipv4, [''-A'', chainName, ''-j'',
                   if Policy policy = ''allow'' then ''ACCEPT'' else ''DROP''], True)
     \<and> last (filter (ofVersion ipv6) (issued h'))
         = (ipv6, [''-A'', chainName, ''-j'',
                   if Policy policy = ''allow'' then ''ACCEPT'' else ''DROP''], True)"
    by (simp only: last_filter_defaultVerdict)
  from mode iss cnt l show ?thesis by blast
qed

lemmas iptables_eval = ApplyRules_def andThen_def metadataBlocks_def dnsRules_def
  applyNetworkRule_def runIPTablesForVersion_def runIPTables_def runIP6Tables_def
  detectIPVersion_def ValidatePolicyMode_def ValidateCIDR_def ValidatePort_def
  showNat.simps digitChar_def

theorem C4_ApplyRules_rule_sequence_witness:
  "ApplyRules (\<lambda>version args w. (True, w)) [''172.17.0.0/16''] ''ISO-0123456789abcdef''
      \<lparr>Policy = ''deny'', PolicyBlockMetadata = False, AllowDns = False, DnsServers = [],
        PolicyWhitelist = [\<lparr>Cidr = ''8.8.8.8/32'', RuleDescription = None, Ports = [443]\<rparr>],
        PolicyBlacklist = [\<lparr>Cidr = ''10.0.0.0/8'', RuleDescription = None, Ports = []\<rparr>]\<rparr>
      \<lparr>env = (), issued = []\<rparr>
    = ((5, None),
       \<lparr>env = (),
         issued =
           [(ipv4, [''-A'', ''ISO-0123456789abcdef'', ''-d'', ''172.17.0.0/16'', ''-j'', ''DROP''], True),
            (ipv4, [''-A'', ''ISO-0123456789abcdef'', ''-d'', ''8.8.8.8/32'', ''-p'', ''tcp'',
                    ''--dport'', ''443'', ''-j'', ''ACCEPT''], True),
            (ipv4, [''-A'', ''ISO-0123456789abcdef'', ''-d'', ''8.8.8.8/32'', ''-p'', ''udp'',
                    ''--dport'', ''443'', ''-j'', ''ACCEPT''], True),
            (ipv4, [''-A'', ''ISO-0123456789abcdef'', ''-j'', ''DROP''], True),
            (ipv6, [''-A'', ''ISO-0123456789abcdef'', ''-j'', ''DROP''], True)]\<rparr>)
   \<and> length (isolationRules [''172.17.0.0/16''] ''ISO-0123456789abcdef''
        \<lparr>Policy = ''deny'', PolicyBlockMetadata = False, AllowDns = False, DnsServers = [],
        PolicyWhitelist = [\<lparr>Cidr = ''8.8.8.8/32'', RuleDescription = None, Ports = [443]\<rparr>],
        PolicyBlacklist = [\<lparr>Cidr = ''10.0.0.0/8'', RuleDescription = None, Ports = []\<rparr>]\<rparr>
      @ whitelistAccepts ''ISO-0123456789abcdef''
        \<lparr>Policy = ''deny'', PolicyBlockMetadata = False, AllowDns = False, DnsServers = [],
        PolicyWhitelist = [\<lparr>Cidr = ''8.8.8.8/32'', RuleDescription = None, Ports = [443]\<rparr>],
        PolicyBlacklist = [\<lparr>Cidr = ''10.0.0.0/8'', RuleDescription = None, Ports = []\<rparr>]\<rparr>
      @ blacklistDrops ''ISO-0123456789abcdef''
        \<lparr>Policy = ''deny'', PolicyBlockMetadata = False, AllowDns = False, DnsServers = [],
        PolicyWhitelist = [\<lparr>Cidr = ''8.8.8.8/32'', RuleDescription = None, Ports = [443]\<rparr>],
        PolicyBlacklist = [\<lparr>Cidr = ''10.0.0.0/8'', RuleDescription = None, Ports = []\<rparr>]\<rparr>
      @ defaultVerdict ''ISO-0123456789abcdef''
        \<lparr>Policy = ''deny'', PolicyBlockMetadata = False, AllowDns = False, DnsServers = [],
        PolicyWhitelist = [\<lparr>Cidr = ''8.8.8.8/32'', RuleDescription = None, Ports = [443]\<rparr>],
        PolicyBlacklist = [\<lparr>Cidr = ''10.0.0.0/8'', RuleDescription = None, Ports = []\<rparr>]\<rparr>) = 5"
proof -
  let ?p = "\<lparr>Policy = ''deny'', PolicyBlockMetadata = False, AllowDns = False, DnsServers = [],
        PolicyWhitelist = [\<lparr>Cidr = ''8.8.8.8/32'', RuleDescription = None, Ports = [443]\<rparr>],
        PolicyBlacklist = [\<lparr>Cidr = ''10.0.0.0/8'', RuleDescription = None, Ports = []\<rparr>]\<rparr>"
  let ?H = "\<lparr>env = (),
         issued =
           [(ipv4, [''-A'', ''ISO-0123456789abcdef'', ''-d'', ''172.17.0.0/16'', ''-j'', ''DROP''], True),
            (ipv4, [''-A'', ''ISO-0123456789abcdef'', ''-d'', ''8.8.8.8/32'', ''-p'', ''tcp'',
                    ''--dport'', ''443'', ''-j'', ''ACCEPT''], True),
            (ipv4, [''-A'', ''ISO-0123456789abcdef'', ''-d'', ''8.8.8.8/32'', ''-p'', ''udp'',
                    ''--dport'', ''443'', ''-j'', ''ACCEPT''], True),
            (ipv4, [''-A'', ''ISO-0123456789abcdef'', ''-j'', ''DROP''], True),
            (ipv6, [''-A'', ''ISO-0123456789abcdef'', ''-j'', ''DROP''], True)]\<rparr>"
  have run: "ApplyRules (\<lambda>version args w. (True, w)) [''172.17.0.0/16''] ''ISO-0123456789abcdef''
      ?p \<lparr>env = (), issued = []\<rparr> = ((5, None), ?H)"
    by (simp add: iptables_eval net_eval)
  from C4_ApplyRules_rule_sequence [OF run] run show ?thesis by simp
qed

text \<open>
  As written, C4 speaks of every policy whose mode is \<open>allow\<close> or \<open>deny\<close>.  A run that
  fails stops where it failed: with a whitelist entry that is no CIDR, on a host where every
  command succeeds, \<open>ApplyRules\<close> returns the validation error after the bridge rule, and no
  default verdict is appended in either family.
\<close>

theorem C4_failed_run_counterexample:
  "ValidatePolicyMode ''deny'' = None
   \<and> ApplyRules (\<lambda>version args w. (True, w)) [''172.17.0.0/16''] ''ISO-0123456789abcdef''
      \<lparr>Policy = ''deny'', PolicyBlockMetadata = False, AllowDns = False, DnsServers = [],
        PolicyWhitelist = [\<lparr>Cidr = ''not-a-cidr'', RuleDescription = None, Ports = []\<rparr>],
        PolicyBlacklist = []\<rparr>
      \<lparr>env = (), issued = []\<rparr>
    = ((1, Some (Validation (ValidationError ''cidr'' ''invalid CIDR notation: not-a-cidr''))),
       \<lparr>env = (),
         issued =
           [(ipv4, [''-A'', ''ISO-0123456789abcdef'', ''-d'', ''172.17.0.0/16'', ''-j'', ''DROP''],
             True)]\<rparr>)"
  by (simp add: iptables_eval net_eval)

section \<open>The SetupChain RPC refuses a container IP that is not private IPv4 (C10)\<close>

text \<open>
  Claim C10.  When the request's container IP does not parse as an IPv4 address inside
  \<open>10.0.0.0/8\<close>, \<open>172.16.0.0/12\<close> or \<open>192.168.0.0/16\<close> (so in particular when it is an
  IPv6 address, for which \<open>To4\<close> gives \<open>nil\<close>), the response has \<open>success = false\<close>
  and carries the text of a validation error (of the chain name, which is checked first, or
  of the container IP); the host is the same as before, with no command issued; and the
  chain-to-IP map is unchanged.
\<close>

theorem C10_invalid_container_ip_rejected:
  assumes bad: "\<not> (To4 (ParseIP (ContainerIp req)) \<noteq> []
                   \<and> in_rfc1918 (To4 (ParseIP (ContainerIp req))))"
    and run: "Server_SetupChain exec req (s, h) = (resp, s', h')"
  shows "Success resp = False
         \<and> (\<exists>err. Error resp = Some (ValidationError_Error err)
                \<and> (ValidateChainName (ChainName req) = Some err
                    \<or> ValidateContainerIP (ContainerIp req) = Inl err))
         \<and> h' = h \<and> issued h' = issued h \<and> env h' = env h
         \<and> chainIPs s' = chainIPs s"
proof -
  have "isl (ValidateContainerIP (ContainerIp req))"
    unfolding ValidateContainerIP_iff by (rule bad)
  then obtain e where e: "ValidateContainerIP (ContainerIp req) = Inl e"
    by (cases "ValidateContainerIP (ContainerIp req)") auto
  show ?thesis
  proof (cases "ValidateChainName (ChainName req)")
    case None
    with run e show ?thesis
      by (auto simp: Server_SetupChain_def auditLog_def)
  next
    case (Some err)
    with run show ?thesis
      by (auto simp: Server_SetupChain_def auditLog_def)
  qed
qed

theorem C10_invalid_container_ip_rejected_witness:
  "Success (fst (Server_SetupChain nf_exec
       \<lparr>ChainName = ''ISO-0123456789abcdef'', ContainerIp = ''2001:db8::100'',
         ContainerId = ''abc123def456''\<rparr>
       (\<lparr>chainIPs = Map.empty, audit = []\<rparr>, \<lparr>env = freshNetfilter, issued = []\<rparr>))) = False
   \<and> snd (snd (Server_SetupChain nf_exec
       \<lparr>ChainName = ''ISO-0123456789abcdef'', ContainerIp = ''2001:db8::100'',
         ContainerId = ''abc123def456''\<rparr>
       (\<lparr>chainIPs = Map.empty, audit = []\<rparr>, \<lparr>env = freshNetfilter, issued = []\<rparr>)))
     = \<lparr>env = freshNetfilter, issued = []\<rparr>
   \<and> chainIPs (fst (snd (Server_SetupChain nf_exec
       \<lparr>ChainName = ''ISO-0123456789abcdef'', ContainerIp = ''2001:db8::100'',
         ContainerId = ''abc123def456''\<rparr>
       (\<lparr>chainIPs = Map.empty, audit = []\<rparr>, \<lparr>env = freshNetfilter, issued = []\<rparr>))))
     = Map.empty"
proof -
  let ?req = "\<lparr>ChainName = ''ISO-0123456789abcdef'', ContainerIp = ''2001:db8::100'',
         ContainerId = ''abc123def456''\<rparr>"
  let ?s = "\<lparr>chainIPs = Map.empty, audit = []\<rparr>"
  let ?h = "\<lparr>env = freshNetfilter, issued = []\<rparr>"
  have v6: "To4 (ParseIP (ContainerIp ?req)) = []" by (simp add: net_eval)
  then have bad: "\<not> (To4 (ParseIP (ContainerIp ?req)) \<noteq> []
                   \<and> in_rfc1918 (To4 (ParseIP (ContainerIp ?req))))" by simp
  obtain resp s' h' where run: "Server_SetupChain nf_exec ?req (?s, ?h) = (resp, s', h')"
    by (cases "Server_SetupChain nf_exec ?req (?s, ?h)") auto
  from C10_invalid_container_ip_rejected [OF bad run] run show ?thesis by simp
qed

end
